theory Spec2Isabelle
  imports Main
begin

section \<open>JavaScript containers\<close>

text \<open>
  A JavaScript \<open>Set\<close> keeps its elements without duplicates, in insertion order; a
  \<open>Map\<close> keeps one entry per key, in the order the keys were first inserted, and
  \<open>Map.set\<close> on a key that is present overwrites the value in place. Both are lists
  here, so that \<open>forEach\<close> and \<open>for ... of\<close> visit the elements in the order the
  program sees them. The well-formed lists are the duplicate-free ones.
\<close>

definition set_has :: "'a list \<Rightarrow> 'a \<Rightarrow> bool" where
  "set_has xs x = (x \<in> set xs)"

definition set_add :: "'a list \<Rightarrow> 'a \<Rightarrow> 'a list" where
  "set_add xs x = (if x \<in> set xs then xs else xs @ [x])"

definition set_delete :: "'a list \<Rightarrow> 'a \<Rightarrow> 'a list" where
  "set_delete xs x = filter (\<lambda>y. y \<noteq> x) xs"

definition map_get :: "('k \<times> 'v) list \<Rightarrow> 'k \<Rightarrow> 'v option" where
  "map_get m k = map_of m k"

definition map_has :: "('k \<times> 'v) list \<Rightarrow> 'k \<Rightarrow> bool" where
  "map_has m k = (k \<in> fst ` set m)"

fun map_set :: "('k \<times> 'v) list \<Rightarrow> 'k \<Rightarrow> 'v \<Rightarrow> ('k \<times> 'v) list" where
  "map_set [] k v = [(k, v)]"
| "map_set ((k', v') # m) k v = (if k' = k then (k, v) # m else (k', v') # map_set m k v)"

definition map_delete :: "('k \<times> 'v) list \<Rightarrow> 'k \<Rightarrow> ('k \<times> 'v) list" where
  "map_delete m k = filter (\<lambda>p. fst p \<noteq> k) m"

definition map_values :: "('k \<times> 'v) list \<Rightarrow> 'v list" where
  "map_values m = map snd m"

section \<open>The signaling server (server.js)\<close>

type_synonym sid = string
type_synonym sdp = string
type_synonym candidate = string

text \<open>One entry of the \<open>rooms\<close> table: \<open>{ streamer: socket.id, viewers: new Set() }\<close>.\<close>

record room =
  streamer :: sid
  viewers :: "sid list"

text \<open>What a handler passes to its acknowledgement callback.\<close>

datatype response = RoomId string | Success | Error string

text \<open>The events the server sends to clients.\<close>

datatype event =
    ViewerJoined sid
  | ViewerLeft sid
  | StreamerLeft
  | StreamPaused
  | StreamResumed
  | Offer sdp sid
  | Answer sdp sid
  | IceCandidate candidate sid

text \<open>
  The observable steps of a handler, in program order: \<open>callback(r)\<close>,
  \<open>socket.to(target).emit(e)\<close> issued by socket \<open>s\<close>, \<open>socket.join(r)\<close> and
  \<open>rooms.delete(r)\<close>.
\<close>

datatype effect =
    Callback response
  | Emit sid string event
  | Join sid string
  | RoomsDelete string

text \<open>
  The server's state: the \<open>rooms\<close> table of server.js and the room membership kept by
  socket.io (its adapter), which decides who receives a \<open>socket.to(r).emit\<close>. Every
  connected socket is a member of the room named by its own id; \<open>socket.join\<close> adds
  a membership; a socket has left every room by the time its \<open>disconnect\<close> handler runs.
\<close>

record server =
  rooms :: "(string \<times> room) list"
  adapter :: "string \<Rightarrow> sid set"

definition DEV_ROOM_ID :: string where
  "DEV_ROOM_ID = ''dev-room-001''"

definition connection :: "sid \<Rightarrow> server \<Rightarrow> server" where
  "connection s st = st\<lparr>adapter := (adapter st)(s := insert s (adapter st s))\<rparr>"

definition socket_join :: "sid \<Rightarrow> string \<Rightarrow> server \<Rightarrow> server" where
  "socket_join s r st = st\<lparr>adapter := (adapter st)(r := insert s (adapter st r))\<rparr>"

text \<open>
  \<open>create-room\<close>: \<open>isDevelopment\<close> is \<open>process.env.NODE_ENV !== "production"\<close> and
  \<open>rnd\<close> is the value of \<open>Math.random().toString(36).substring(2, 15)\<close>.
\<close>

definition create_room :: "bool \<Rightarrow> string \<Rightarrow> sid \<Rightarrow> server \<Rightarrow> server \<times> effect list" where
  "create_room isDevelopment rnd s st =
     (let roomId = (if isDevelopment then DEV_ROOM_ID else rnd);
          st1 = st\<lparr>rooms := map_set (rooms st) roomId \<lparr>streamer = s, viewers = []\<rparr>\<rparr>;
          st2 = socket_join s roomId st1
      in (st2, [Join s roomId, Callback (RoomId roomId)]))"

definition join_room :: "sid \<Rightarrow> string \<Rightarrow> server \<Rightarrow> server \<times> effect list" where
  "join_room s roomId st =
     (case map_get (rooms st) roomId of
        None \<Rightarrow> (st, [Callback (Error ''Room does not exist'')])
      | Some room \<Rightarrow>
          if set_has (viewers room) s then (st, [Callback Success])
          else
            (let room1 = room\<lparr>viewers := set_add (viewers room) s\<rparr>;
                 st1 = st\<lparr>rooms := map_set (rooms st) roomId room1\<rparr>;
                 st2 = socket_join s roomId st1
             in (st2, [Join s roomId, Emit s (streamer room1) (ViewerJoined s), Callback Success])))"

text \<open>The relay handlers: \<open>offer\<close>, \<open>answer\<close>, \<open>ice-candidate\<close>, \<open>stream-paused\<close>, \<open>stream-resumed\<close>.\<close>

definition relay_offer :: "sid \<Rightarrow> sdp \<Rightarrow> string \<Rightarrow> effect list" where
  "relay_offer s offer target = [Emit s target (Offer offer s)]"

definition relay_answer :: "sid \<Rightarrow> sdp \<Rightarrow> string \<Rightarrow> effect list" where
  "relay_answer s answer target = [Emit s target (Answer answer s)]"

definition relay_ice_candidate :: "sid \<Rightarrow> candidate \<Rightarrow> string \<Rightarrow> effect list" where
  "relay_ice_candidate s c target = [Emit s target (IceCandidate c s)]"

definition stream_paused :: "sid \<Rightarrow> string \<Rightarrow> effect list" where
  "stream_paused s roomId = [Emit s roomId StreamPaused]"

definition stream_resumed :: "sid \<Rightarrow> string \<Rightarrow> effect list" where
  "stream_resumed s roomId = [Emit s roomId StreamResumed]"

text \<open>
  The \<open>disconnect\<close> handler walks \<open>rooms.entries()\<close>. Each step touches only the entry
  it is visiting, so the walk is a recursion over the entries as they were when the loop
  started, threading the table and the steps taken so far.
\<close>

fun disconnect_loop ::
  "sid \<Rightarrow> (string \<times> room) list \<Rightarrow> (string \<times> room) list \<times> effect list
     \<Rightarrow> (string \<times> room) list \<times> effect list" where
  "disconnect_loop s [] acc = acc"
| "disconnect_loop s ((roomId, room) # rest) (rs, effs) =
     (if streamer room = s then
        disconnect_loop s rest
          (map_delete rs roomId, effs @ [Emit s roomId StreamerLeft, RoomsDelete roomId])
      else if set_has (viewers room) s then
        disconnect_loop s rest
          (map_set rs roomId (room\<lparr>viewers := set_delete (viewers room) s\<rparr>),
           effs @ [Emit s (streamer room) (ViewerLeft s)])
      else disconnect_loop s rest (rs, effs))"

definition leave_all :: "sid \<Rightarrow> server \<Rightarrow> server" where
  "leave_all s st = st\<lparr>adapter := (\<lambda>r. adapter st r - {s})\<rparr>"

definition disconnect :: "sid \<Rightarrow> server \<Rightarrow> server \<times> effect list" where
  "disconnect s st =
     (let st1 = leave_all s st;
          (rs, effs) = disconnect_loop s (rooms st1) (rooms st1, [])
      in (st1\<lparr>rooms := rs\<rparr>, effs))"

text \<open>
  Delivery: \<open>socket.to(target).emit(e)\<close> reaches every member of the socket.io room
  \<open>target\<close> except the sender. \<open>inbox ad effs v\<close> lists the events socket \<open>v\<close>
  receives from the steps \<open>effs\<close>, starting from the membership \<open>ad\<close>.
\<close>

definition recipients :: "(string \<Rightarrow> sid set) \<Rightarrow> sid \<Rightarrow> string \<Rightarrow> sid set" where
  "recipients ad sender target = ad target - {sender}"

fun inbox :: "(string \<Rightarrow> sid set) \<Rightarrow> effect list \<Rightarrow> sid \<Rightarrow> event list" where
  "inbox ad [] v = []"
| "inbox ad (Emit s target e # effs) v =
     (if v \<in> recipients ad s target then e # inbox ad effs v else inbox ad effs v)"
| "inbox ad (Join s r # effs) v = inbox (ad(r := insert s (ad r))) effs v"
| "inbox ad (Callback r # effs) v = inbox ad effs v"
| "inbox ad (RoomsDelete r # effs) v = inbox ad effs v"

text \<open>The registry is well formed when it is a JavaScript \<open>Map\<close> whose viewer sets are \<open>Set\<close>s.\<close>

definition registry_wf :: "server \<Rightarrow> bool" where
  "registry_wf st =
     (distinct (map fst (rooms st)) \<and> list_all (\<lambda>p. distinct (viewers (snd p))) (rooms st))"


text \<open>The responses a handler passed to its callback, in order.\<close>

fun callbacks :: "effect list \<Rightarrow> response list" where
  "callbacks [] = []"
| "callbacks (Callback r # effs) = r # callbacks effs"
| "callbacks (e # effs) = callbacks effs"

text \<open>The steps the \<open>disconnect\<close> loop takes at one entry of the table.\<close>

definition disconnect_effects :: "sid \<Rightarrow> string \<times> room \<Rightarrow> effect list" where
  "disconnect_effects s p =
     (if streamer (snd p) = s then [Emit s (fst p) StreamerLeft, RoomsDelete (fst p)]
      else if set_has (viewers (snd p)) s then [Emit s (streamer (snd p)) (ViewerLeft s)]
      else [])"

text \<open>Every viewer recorded in a room is a member of the socket.io room of that name.\<close>

definition viewers_joined :: "server \<Rightarrow> bool" where
  "viewers_joined st =
     list_all (\<lambda>p. list_all (\<lambda>v. v \<in> adapter st (fst p)) (viewers (snd p))) (rooms st)"

text \<open>What the loop of \<open>disconnect\<close> leaves of a room that stays.\<close>

definition disconnect_room :: "sid \<Rightarrow> room \<Rightarrow> room" where
  "disconnect_room s room =
     (if set_has (viewers room) s then room\<lparr>viewers := set_delete (viewers room) s\<rparr> else room)"

text \<open>
  The requests that change the registry, and the server's state after a sequence of them,
  starting with no room and no socket.
\<close>

datatype request =
    Connect sid
  | CreateRoom bool string sid
  | JoinRoom sid string
  | Disconnect sid

fun handle :: "request \<Rightarrow> server \<Rightarrow> server" where
  "handle (Connect s) st = connection s st"
| "handle (CreateRoom isDevelopment rnd s) st = fst (create_room isDevelopment rnd s st)"
| "handle (JoinRoom s roomId) st = fst (join_room s roomId st)"
| "handle (Disconnect s) st = fst (disconnect s st)"

subsection \<open>Example registry states\<close>

definition server0 :: server where
  "server0 = \<lparr>rooms = [], adapter = (\<lambda>r. {})\<rparr>"

definition serve :: "request list \<Rightarrow> server" where
  "serve reqs = fold handle reqs server0"

text \<open>Development mode: streamer \<open>s\<close> has created the room, viewer \<open>v\<close> is connected.\<close>

definition one_room :: server where
  "one_room = serve [Connect ''s'', Connect ''v'', CreateRoom True [] ''s'']"

definition one_room_joined :: server where
  "one_room_joined =
     serve [Connect ''s'', Connect ''v'', CreateRoom True [] ''s'', JoinRoom ''v'' DEV_ROOM_ID]"

text \<open>
  Production mode: streamer \<open>s\<close> has created two rooms, \<open>a\<close> and \<open>b\<close>, and viewer
  \<open>v\<close> has joined both.
\<close>

definition two_rooms :: server where
  "two_rooms =
     serve [Connect ''s'', Connect ''v'', CreateRoom False ''a'' ''s'', CreateRoom False ''b'' ''s'',
            JoinRoom ''v'' ''a'', JoinRoom ''v'' ''b'']"

section \<open>The WebRTC hook (useWebRTC.ts)\<close>

text \<open>\<open>RTCPeerConnectionState\<close> and \<open>RTCSignalingState\<close>.\<close>

datatype connState = New | Connecting | Connected | Disconnected | Failed | Closed

datatype sigState =
  Stable | HaveLocalOffer | HaveRemoteOffer | HaveLocalPranswer | HaveRemotePranswer | SigClosed

datatype kind = Video | Audio

text \<open>
  Tracks and peer connections are objects: a track is its identity and kind, a peer
  connection is an address into the store \<open>heap\<close> of the hook's state, so that a
  connection that has left the hook's references can still be spoken about.
\<close>

type_synonym track = "nat \<times> kind"
type_synonym pcref = nat

text \<open>
  Which closures are registered on a connection: those of
  \<open>createPeerConnectionForViewer(viewerId)\<close> or those of \<open>createAnswer(_, streamerId)\<close>.
\<close>

datatype handlers = ForViewer string | ForStreamer string

record pc =
  pc_connectionState :: connState
  pc_signalingState :: sigState
  onconnectionstatechange :: "handlers option"
  onicecandidate :: "handlers option"
  onicecandidateerror :: "handlers option"
  ontrack :: "handlers option"
  senders :: "track list"
  localDescription :: "sdp option"
  remoteDescription :: "sdp option"

text \<open>\<open>new RTCPeerConnection({ iceServers })\<close> and \<open>pc.close()\<close>.\<close>

definition new_pc :: pc where
  "new_pc = \<lparr>pc_connectionState = New, pc_signalingState = Stable,
     onconnectionstatechange = None, onicecandidate = None, onicecandidateerror = None,
     ontrack = None, senders = [], localDescription = None, remoteDescription = None\<rparr>"

definition pc_close :: "pc \<Rightarrow> pc" where
  "pc_close p = p\<lparr>pc_connectionState := Closed, pc_signalingState := SigClosed\<rparr>"

text \<open>What the client sends with \<open>socket.emit\<close>.\<close>

datatype cmsg =
    EmitOffer sdp string
  | EmitAnswer sdp string
  | EmitIceCandidate candidate string
  | EmitJoinRoom string
  | EmitStreamPaused string
  | EmitStreamResumed string

text \<open>
  The observable steps of the client code, in program order: a \<open>socket.emit\<close>, the
  negotiation calls on a connection, and the timer calls of the viewer page.
\<close>

datatype action =
    SocketEmit cmsg
  | CreateOffer pcref
  | CreateAnswer pcref
  | SetLocalDescription pcref sdp
  | SetRemoteDescription pcref sdp
  | SetTimeout nat
  | ClearTimeout

text \<open>
  How an awaited promise settles. A rejection carries an \<open>Error\<close> with its message, or
  some other value (\<open>err instanceof Error\<close> is false).
\<close>

datatype rejection = ErrorObj string | NonError

datatype 'a outcome = Resolved 'a | Rejected rejection

text \<open>
  The hook's state: its props (\<open>socket\<close> is whether the prop is non-null), its React
  state, its refs, the store of connection objects with its allocation counter, and the
  set of tracks that have been stopped.
\<close>

record hook =
  socket :: bool
  isStreamer :: bool
  isConnected :: bool
  error :: "string option"
  connectionState :: connState
  remoteStream :: "nat option"
  peerConnection :: "pcref option"
  localStream :: "track list option"
  peerConnections :: "(string \<times> pcref) list"
  processingOffers :: "string list"
  heap :: "pcref \<Rightarrow> pc"
  nextPc :: pcref
  stopped :: "nat set"

definition createPeerConnectionForViewer :: "string \<Rightarrow> hook \<Rightarrow> pcref \<times> hook" where
  "createPeerConnectionForViewer viewerId h =
     (let h1 = (case map_get (peerConnections h) viewerId of
                  Some oldPc \<Rightarrow>
                    h\<lparr>heap := (heap h)(oldPc := pc_close (heap h oldPc)),
                      peerConnections := map_delete (peerConnections h) viewerId\<rparr>
                | None \<Rightarrow> h);
          pc = nextPc h1;
          h2 = h1\<lparr>heap := (heap h1)(pc := new_pc\<lparr>
                  onconnectionstatechange := Some (ForViewer viewerId),
                  onicecandidate := Some (ForViewer viewerId),
                  onicecandidateerror := Some (ForViewer viewerId)\<rparr>),
                nextPc := Suc pc\<rparr>
      in (pc, h2\<lparr>peerConnections := map_set (peerConnections h2) viewerId pc\<rparr>))"

text \<open>
  The \<open>onconnectionstatechange\<close> closure of \<open>createPeerConnectionForViewer\<close>, for the
  connection \<open>pc\<close>.
\<close>

definition forViewer_onconnectionstatechange :: "pcref \<Rightarrow> hook \<Rightarrow> hook" where
  "forViewer_onconnectionstatechange pc h =
     (if isStreamer h then
        (let allConnections = map (heap h) (map_values (peerConnections h));
             hasConnectedViewer =
               list_ex (\<lambda>conn. pc_connectionState conn = Connected) allConnections
         in if hasConnectedViewer then h\<lparr>connectionState := Connected, isConnected := True\<rparr>
            else if length allConnections > 0 then
              (let states = map pc_connectionState allConnections;
                   hasConnecting = (Connecting \<in> set states)
               in if hasConnecting then h\<lparr>connectionState := Connecting, isConnected := False\<rparr>
                  else h\<lparr>connectionState := Disconnected, isConnected := False\<rparr>)
            else h\<lparr>connectionState := New, isConnected := False\<rparr>)
      else h\<lparr>connectionState := pc_connectionState (heap h pc),
             isConnected := (pc_connectionState (heap h pc) = Connected)\<rparr>)"

text \<open>The closures that \<open>createAnswer\<close> registers on the viewer's connection.\<close>

definition forStreamer_onconnectionstatechange :: "pcref \<Rightarrow> hook \<Rightarrow> hook" where
  "forStreamer_onconnectionstatechange pc h =
     (if peerConnection h \<noteq> None then
        h\<lparr>connectionState := pc_connectionState (heap h pc),
          isConnected := (pc_connectionState (heap h pc) = Connected)\<rparr>
      else h)"

definition forStreamer_ontrack :: "nat list \<Rightarrow> hook \<Rightarrow> hook" where
  "forStreamer_ontrack streams h =
     (case streams of [] \<Rightarrow> h | s # _ \<Rightarrow> h\<lparr>remoteStream := Some s\<rparr>)"

text \<open>
  The browser moves a connection to state \<open>cs\<close> and fires \<open>connectionstatechange\<close> on
  it: the handler registered on the connection, if any, runs.
\<close>

definition connectionstatechange :: "pcref \<Rightarrow> connState \<Rightarrow> hook \<Rightarrow> hook" where
  "connectionstatechange pc cs h =
     (let h1 = h\<lparr>heap := (heap h)(pc := (heap h pc)\<lparr>pc_connectionState := cs\<rparr>)\<rparr>
      in case onconnectionstatechange (heap h1 pc) of
           None \<Rightarrow> h1
         | Some (ForViewer viewerId) \<Rightarrow> forViewer_onconnectionstatechange pc h1
         | Some (ForStreamer streamerId) \<Rightarrow> forStreamer_onconnectionstatechange pc h1)"

text \<open>
  \<open>startLocalStream\<close>. The environment decides what \<open>getUserMedia\<close> does: the API is
  missing, or it resolves with a stream, or it rejects with an \<open>Error\<close> of some name and
  message, or with another value. The result is the stream returned, \<open>None\<close> for
  \<open>undefined\<close>, or the message of the \<open>Error\<close> thrown.
\<close>

datatype media = Unsupported | Stream "track list" | MediaError string string | MediaThrown

definition startLocalStream_catch :: "string \<Rightarrow> hook \<Rightarrow> hook \<times> (string + track list option)" where
  "startLocalStream_catch errorMessage h = (h\<lparr>error := Some errorMessage\<rparr>, Inl errorMessage)"

definition startLocalStream :: "media \<Rightarrow> hook \<Rightarrow> hook \<times> (string + track list option)" where
  "startLocalStream env h =
     (if \<not> isStreamer h then (h, Inr None)
      else
        (case env of
           Unsupported \<Rightarrow>
             startLocalStream_catch ''Your browser does not support camera functionality'' h
         | Stream stream \<Rightarrow>
             if length (filter (\<lambda>t. snd t = Video) stream) = 0
             then startLocalStream_catch ''Unable to get video track'' h
             else (h\<lparr>localStream := Some stream\<rparr>, Inr (Some stream))
         | MediaError name message \<Rightarrow>
             startLocalStream_catch
               (if name = ''NotAllowedError''
                  then ''Camera permission denied, please allow camera access''
                else if name = ''NotFoundError'' then ''Camera device not found''
                else if name = ''NotReadableError''
                  then ''The camera is being used by another application''
                else message) h
         | MediaThrown \<Rightarrow> startLocalStream_catch ''Unable to get media devices'' h))"

definition stopLocalStream :: "hook \<Rightarrow> hook" where
  "stopLocalStream h =
     (case localStream h of
        Some stream \<Rightarrow> h\<lparr>stopped := stopped h \<union> fst ` set stream, localStream := None\<rparr>
      | None \<Rightarrow> h)"


text \<open>
  \<open>createOffer\<close> is asynchronous: it runs to its first \<open>await\<close>, and each later part
  runs when the awaited promise settles. \<open>createOffer_start\<close> is the part up to
  \<open>await pc.createOffer()\<close>; it returns the connection it is waiting on, if it got that
  far. \<open>MediaStream.getTracks()\<close> lists each track once, so \<open>addTrack\<close> is never asked
  to add a track twice.
\<close>

definition createOffer_catch :: "rejection \<Rightarrow> hook \<Rightarrow> hook" where
  "createOffer_catch err h =
     h\<lparr>error := Some (case err of ErrorObj message \<Rightarrow> message
                                 | NonError \<Rightarrow> ''Failed to create Offer'')\<rparr>"

definition createOffer_start :: "string \<Rightarrow> hook \<Rightarrow> hook \<times> action list \<times> pcref option" where
  "createOffer_start viewerId h =
     (if \<not> socket h \<or> \<not> isStreamer h then (h, [], None)
      else
        (case localStream h of
           None \<Rightarrow> (h\<lparr>error := Some ''Local stream not ready''\<rparr>, [], None)
         | Some tracks \<Rightarrow>
             (let (pc, h1) = createPeerConnectionForViewer viewerId h;
                  existingSenders = senders (heap h1 pc);
                  added = filter (\<lambda>track. track \<notin> set existingSenders) tracks;
                  h2 = h1\<lparr>heap := (heap h1)(pc := (heap h1 pc)\<lparr>senders := existingSenders @ added\<rparr>)\<rparr>
              in (h2, [CreateOffer pc], Some pc))))"

text \<open>After \<open>await pc.createOffer()\<close>: the offer, if any, goes to \<open>setLocalDescription\<close>.\<close>

definition createOffer_created ::
  "pcref \<Rightarrow> sdp outcome \<Rightarrow> hook \<Rightarrow> hook \<times> action list \<times> sdp option" where
  "createOffer_created pc settled h =
     (case settled of
        Rejected err \<Rightarrow> (createOffer_catch err h, [], None)
      | Resolved offer \<Rightarrow> (h, [SetLocalDescription pc offer], Some offer))"

text \<open>
  After \<open>await pc.setLocalDescription(offer)\<close>: on success the browser has recorded the
  description on the connection, and the offer is sent to the viewer.
\<close>

definition createOffer_described ::
  "string \<Rightarrow> pcref \<Rightarrow> sdp \<Rightarrow> unit outcome \<Rightarrow> hook \<Rightarrow> hook \<times> action list" where
  "createOffer_described viewerId pc offer settled h =
     (case settled of
        Rejected err \<Rightarrow> (createOffer_catch err h, [])
      | Resolved _ \<Rightarrow>
          (h\<lparr>heap := (heap h)(pc := (heap h pc)\<lparr>localDescription := Some offer,
                                                pc_signalingState := HaveLocalOffer\<rparr>)\<rparr>,
           [SocketEmit (EmitOffer offer viewerId)]))"

text \<open>The whole of \<open>createOffer\<close>, when nothing else runs between its parts.\<close>

definition createOffer ::
  "string \<Rightarrow> sdp outcome \<Rightarrow> unit outcome \<Rightarrow> hook \<Rightarrow> hook \<times> action list" where
  "createOffer viewerId created described h =
     (case createOffer_start viewerId h of
        (h1, acts1, None) \<Rightarrow> (h1, acts1)
      | (h1, acts1, Some pc) \<Rightarrow>
          (case createOffer_created pc created h1 of
             (h2, acts2, None) \<Rightarrow> (h2, acts1 @ acts2)
           | (h2, acts2, Some offer) \<Rightarrow>
               (let (h3, acts3) = createOffer_described viewerId pc offer described h2
                in (h3, acts1 @ acts2 @ acts3))))"

text \<open>
  \<open>createAnswer\<close>, in the same way. Its \<open>catch\<close> records the error, its \<open>finally\<close>
  removes the guard entry. Each part after an \<open>await\<close> reads \<open>peerConnection.current\<close>
  again; reading a property of \<open>null\<close> throws a \<open>TypeError\<close>, whose message is the
  engine's.
\<close>

definition null_dereference :: rejection where
  "null_dereference = ErrorObj ''Cannot read properties of null''"

definition createAnswer_catch :: "rejection \<Rightarrow> hook \<Rightarrow> hook" where
  "createAnswer_catch err h =
     h\<lparr>error := Some (case err of ErrorObj message \<Rightarrow> message
                                 | NonError \<Rightarrow> ''WebRTC Answer Error'')\<rparr>"

definition createAnswer_finally :: "string \<Rightarrow> hook \<Rightarrow> hook" where
  "createAnswer_finally streamerId h =
     h\<lparr>processingOffers := set_delete (processingOffers h) streamerId\<rparr>"

definition createAnswer_failed :: "string \<Rightarrow> rejection \<Rightarrow> hook \<Rightarrow> hook" where
  "createAnswer_failed streamerId err h = createAnswer_finally streamerId (createAnswer_catch err h)"

text \<open>
  The part before \<open>try\<close>: a connection in a terminal state is closed and dropped, and a
  connection is created if there is none.
\<close>

definition createAnswer_prepare :: "string \<Rightarrow> hook \<Rightarrow> hook" where
  "createAnswer_prepare streamerId h =
     (let h1 = (case peerConnection h of
                  Some pc \<Rightarrow>
                    (let state = pc_connectionState (heap h pc)
                     in if state = Failed \<or> state = Closed \<or> state = Disconnected
                        then h\<lparr>heap := (heap h)(pc := pc_close (heap h pc)),
                               peerConnection := None\<rparr>
                        else h)
                | None \<Rightarrow> h)
      in case peerConnection h1 of
           None \<Rightarrow>
             (let pc = nextPc h1
              in h1\<lparr>heap := (heap h1)(pc := new_pc\<lparr>
                       onconnectionstatechange := Some (ForStreamer streamerId),
                       onicecandidate := Some (ForStreamer streamerId),
                       ontrack := Some (ForStreamer streamerId)\<rparr>),
                     nextPc := Suc pc,
                     peerConnection := Some pc\<rparr>)
         | Some pc \<Rightarrow> h1)"

text \<open>
  Up to \<open>await peerConnection.current.setRemoteDescription(offer)\<close>. The result is
  the connection whose promise the call is now waiting on, if it got that far.
\<close>

definition createAnswer_start ::
  "sdp \<Rightarrow> string \<Rightarrow> hook \<Rightarrow> hook \<times> action list \<times> pcref option" where
  "createAnswer_start offer streamerId h =
     (if set_has (processingOffers h) streamerId then (h, [], None)
      else
        (let h2 = createAnswer_prepare streamerId h;
             h3 = h2\<lparr>processingOffers := set_add (processingOffers h2) streamerId\<rparr>
         in case peerConnection h3 of
              None \<Rightarrow> (createAnswer_failed streamerId null_dereference h3, [], None)
            | Some pc \<Rightarrow>
                if pc_signalingState (heap h3 pc) \<noteq> Stable
                then (createAnswer_finally streamerId h3, [], None)
                else (h3, [SetRemoteDescription pc offer], Some pc)))"

text \<open>
  After \<open>setRemoteDescription(offer)\<close> on connection \<open>pc0\<close> has settled: on success the
  browser has recorded the offer on \<open>pc0\<close>, and \<open>createAnswer()\<close> is called on the
  current connection. The result is the connection the call is waiting on.
\<close>

definition createAnswer_remote_set ::
  "sdp \<Rightarrow> string \<Rightarrow> pcref \<Rightarrow> unit outcome \<Rightarrow> hook \<Rightarrow> hook \<times> action list \<times> pcref option" where
  "createAnswer_remote_set offer streamerId pc0 settled h =
     (case settled of
        Rejected err \<Rightarrow> (createAnswer_failed streamerId err h, [], None)
      | Resolved _ \<Rightarrow>
          (let h1 = h\<lparr>heap := (heap h)(pc0 := (heap h pc0)\<lparr>remoteDescription := Some offer,
                                                      pc_signalingState := HaveRemoteOffer\<rparr>)\<rparr>
           in case peerConnection h1 of
                None \<Rightarrow> (createAnswer_failed streamerId null_dereference h1, [], None)
              | Some pc \<Rightarrow> (h1, [CreateAnswer pc], Some pc)))"

text \<open>After \<open>await peerConnection.current.createAnswer()\<close>.\<close>

definition createAnswer_created ::
  "string \<Rightarrow> sdp outcome \<Rightarrow> hook \<Rightarrow> hook \<times> action list \<times> (pcref \<times> sdp) option" where
  "createAnswer_created streamerId settled h =
     (case settled of
        Rejected err \<Rightarrow> (createAnswer_failed streamerId err h, [], None)
      | Resolved answer \<Rightarrow>
          (case peerConnection h of
             None \<Rightarrow> (createAnswer_failed streamerId null_dereference h, [], None)
           | Some pc \<Rightarrow> (h, [SetLocalDescription pc answer], Some (pc, answer))))"

text \<open>
  After \<open>await peerConnection.current.setLocalDescription(answer)\<close> on connection
  \<open>pc2\<close>: the answer is sent with \<open>socket?.emit\<close>.
\<close>

definition createAnswer_described ::
  "string \<Rightarrow> pcref \<Rightarrow> sdp \<Rightarrow> unit outcome \<Rightarrow> hook \<Rightarrow> hook \<times> action list" where
  "createAnswer_described streamerId pc2 answer settled h =
     (case settled of
        Rejected err \<Rightarrow> (createAnswer_failed streamerId err h, [])
      | Resolved _ \<Rightarrow>
          (let h1 = h\<lparr>heap := (heap h)(pc2 := (heap h pc2)\<lparr>localDescription := Some answer,
                                                      pc_signalingState := Stable\<rparr>)\<rparr>
           in (createAnswer_finally streamerId h1,
               if socket h1 then [SocketEmit (EmitAnswer answer streamerId)] else [])))"

text \<open>The whole of \<open>createAnswer\<close>, when nothing else runs between its parts.\<close>

definition createAnswer ::
  "sdp \<Rightarrow> string \<Rightarrow> unit outcome \<Rightarrow> sdp outcome \<Rightarrow> unit outcome \<Rightarrow> hook
     \<Rightarrow> hook \<times> action list" where
  "createAnswer offer streamerId remote_set created described h =
     (case createAnswer_start offer streamerId h of
        (h1, acts1, None) \<Rightarrow> (h1, acts1)
      | (h1, acts1, Some pc0) \<Rightarrow>
          (case createAnswer_remote_set offer streamerId pc0 remote_set h1 of
             (h2, acts2, None) \<Rightarrow> (h2, acts1 @ acts2)
           | (h2, acts2, Some pc1) \<Rightarrow>
               (case createAnswer_created streamerId created h2 of
                  (h3, acts3, None) \<Rightarrow> (h3, acts1 @ acts2 @ acts3)
                | (h3, acts3, Some (pc2, answer)) \<Rightarrow>
                    (let (h4, acts4) = createAnswer_described streamerId pc2 answer described h3
                     in (h4, acts1 @ acts2 @ acts3 @ acts4)))))"

text \<open>
  \<open>handleAnswer\<close>, with how \<open>setRemoteDescription(answer)\<close> settled.
\<close>

definition handleAnswer :: "sdp \<Rightarrow> string \<Rightarrow> unit outcome \<Rightarrow> hook \<Rightarrow> hook" where
  "handleAnswer answer viewerId settled h =
     (if \<not> isStreamer h then h
      else
        (case map_get (peerConnections h) viewerId of
           None \<Rightarrow> h
         | Some pc \<Rightarrow>
             (case settled of
                Resolved _ \<Rightarrow>
                  h\<lparr>heap := (heap h)(pc := (heap h pc)\<lparr>remoteDescription := Some answer,
                                                       pc_signalingState := Stable\<rparr>)\<rparr>
              | Rejected err \<Rightarrow>
                  h\<lparr>error := Some (case err of ErrorObj message \<Rightarrow> message
                                              | NonError \<Rightarrow> ''Failed to handle Answer'')\<rparr>)))"

text \<open>
  \<open>cleanup\<close> and \<open>cleanupViewerConnection\<close>. \<open>close_all\<close> is the loop
  \<open>peerConnections.current.forEach(pc => { pc.onconnectionstatechange = null; pc.close() })\<close>.
\<close>

fun close_all :: "(pcref \<Rightarrow> pc) \<Rightarrow> pcref list \<Rightarrow> (pcref \<Rightarrow> pc)" where
  "close_all hp [] = hp"
| "close_all hp (pc # pcs) =
     close_all (hp(pc := pc_close ((hp pc)\<lparr>onconnectionstatechange := None\<rparr>))) pcs"

definition cleanup :: "hook \<Rightarrow> hook" where
  "cleanup h =
     (let h1 = (case localStream h of
                  Some stream \<Rightarrow>
                    h\<lparr>stopped := stopped h \<union> fst ` set stream, localStream := None\<rparr>
                | None \<Rightarrow> h);
          h2 = (case peerConnection h1 of
                  Some pc \<Rightarrow>
                    h1\<lparr>heap := (heap h1)(pc := pc_close ((heap h1 pc)\<lparr>
                           onconnectionstatechange := None,
                           onicecandidate := None,
                           ontrack := None\<rparr>)),
                       peerConnection := None\<rparr>
                | None \<Rightarrow> h1);
          h3 = h2\<lparr>heap := close_all (heap h2) (map_values (peerConnections h2)),
                 peerConnections := []\<rparr>
      in h3\<lparr>processingOffers := [], remoteStream := None, isConnected := False,
            connectionState := New, error := None\<rparr>)"

definition cleanupViewerConnection :: "string \<Rightarrow> hook \<Rightarrow> hook" where
  "cleanupViewerConnection viewerId h =
     (case map_get (peerConnections h) viewerId of
        None \<Rightarrow> h
      | Some pc \<Rightarrow>
          (let h1 = h\<lparr>heap := (heap h)(pc := pc_close (heap h pc)),
                      peerConnections := map_delete (peerConnections h) viewerId\<rparr>
           in if isStreamer h1 then
                (let allConnections = map (heap h1) (map_values (peerConnections h1));
                     hasConnectedViewer =
                       list_ex (\<lambda>conn. pc_connectionState conn = Connected) allConnections
                 in if hasConnectedViewer
                    then h1\<lparr>connectionState := Connected, isConnected := True\<rparr>
                    else if length allConnections > 0
                    then h1\<lparr>connectionState := Connecting, isConnected := False\<rparr>
                    else h1\<lparr>connectionState := New, isConnected := False\<rparr>)
              else h1))"

text \<open>
  The aggregate connection state as the specification words it, over the states of all
  current streamer-side sessions.
\<close>

definition spec_aggregate :: "connState list \<Rightarrow> connState" where
  "spec_aggregate states =
     (if Connected \<in> set states then Connected
      else if states \<noteq> [] \<and> Connecting \<in> set states then Connecting
      else if states \<noteq> [] then Disconnected
      else New)"

definition session_states :: "hook \<Rightarrow> connState list" where
  "session_states h = map (\<lambda>pc. pc_connectionState (heap h pc)) (map_values (peerConnections h))"


section \<open>The streamer page (app/streamer/page.tsx)\<close>

text \<open>
  A status line is a text, or a template with a count in it, such as
  \<open>`Viewer connected (${n} watching)`\<close>. The dash of the source's texts is written
  \<open>-\<close> here.
\<close>

datatype status = Status string | StatusCount string nat string

text \<open>
  The page's React state and refs, with the hook's state inside. \<open>videoMounted\<close> is
  whether \<open>videoRef.current\<close> is set, \<open>videoSrc\<close> its \<open>srcObject\<close>.
\<close>

record streamer_page =
  sp_roomId :: "string option"
  viewerCount :: nat
  sp_status :: status
  isStreaming :: bool
  isInitializing :: bool
  videoMounted :: bool
  videoSrc :: "track list option"
  viewersRef :: "string list"
  sp_hook :: hook

text \<open>\<open>if (roomId)\<close>: \<open>null\<close> and the empty string are falsy.\<close>

definition truthy :: "string option \<Rightarrow> bool" where
  "truthy r = (case r of None \<Rightarrow> False | Some x \<Rightarrow> x \<noteq> [])"

definition sp_setError :: "string option \<Rightarrow> streamer_page \<Rightarrow> streamer_page" where
  "sp_setError e p = p\<lparr>sp_hook := (sp_hook p)\<lparr>error := e\<rparr>\<rparr>"

definition stopStream :: "streamer_page \<Rightarrow> streamer_page \<times> action list" where
  "stopStream p =
     (let p1 = p\<lparr>sp_hook := stopLocalStream (sp_hook p)\<rparr>;
          p2 = (if videoMounted p1 then p1\<lparr>videoSrc := None\<rparr> else p1);
          p3 = p2\<lparr>isStreaming := False,
                 sp_status := Status ''Stream paused - press Play to resume''\<rparr>
      in (p3, case sp_roomId p3 of
                Some r \<Rightarrow> if truthy (Some r) then [SocketEmit (EmitStreamPaused r)] else []
              | None \<Rightarrow> []))"

text \<open>
  \<open>startStreamCore\<close>: \<open>startLocalStream\<close>, then \<open>attachStreamToVideo\<close>, whose
  outcome is the environment's: the video element never appeared, or it took the
  stream and then loaded its metadata or failed to.
\<close>

datatype attach = Attached | NoVideoElement | VideoLoadFailed

definition startStreamCore ::
  "media \<Rightarrow> attach \<Rightarrow> streamer_page \<Rightarrow> streamer_page \<times> (string + unit)" where
  "startStreamCore env att p =
     (case startLocalStream env (sp_hook p) of
        (h1, Inl message) \<Rightarrow> (p\<lparr>sp_hook := h1\<rparr>, Inl message)
      | (h1, Inr None) \<Rightarrow> (p\<lparr>sp_hook := h1\<rparr>, Inl ''Unable to get media stream'')
      | (h1, Inr (Some stream)) \<Rightarrow>
          (let p1 = p\<lparr>sp_hook := h1\<rparr>
           in case att of
                NoVideoElement \<Rightarrow> (p1, Inl ''Video element initialization failed'')
              | VideoLoadFailed \<Rightarrow> (p1\<lparr>videoSrc := Some stream\<rparr>, Inl ''Video loading failed'')
              | Attached \<Rightarrow> (p1\<lparr>videoSrc := Some stream, isStreaming := True\<rparr>, Inr ())))"

text \<open>
  \<open>viewersRef.current.forEach(viewerId => createOffer(viewerId))\<close>: the calls are not
  awaited, so each runs to its first \<open>await\<close> and the loop goes on. The result lists
  the calls left waiting, with their connections.
\<close>

fun createOffers_start ::
  "string list \<Rightarrow> hook \<Rightarrow> hook \<times> action list \<times> (string \<times> pcref) list" where
  "createOffers_start [] h = (h, [], [])"
| "createOffers_start (viewerId # rest) h =
     (case createOffer_start viewerId h of
        (h1, acts1, waiting) \<Rightarrow>
          (case createOffers_start rest h1 of
             (h2, acts2, pending) \<Rightarrow>
               (h2, acts1 @ acts2,
                (case waiting of None \<Rightarrow> [] | Some pc \<Rightarrow> [(viewerId, pc)]) @ pending)))"

text \<open>
  The waiting calls then run to their end, here one after the other in the order they
  were started; \<open>settle viewerId\<close> is how the two promises of that viewer's call settle.
\<close>

fun createOffers_finish ::
  "(string \<Rightarrow> sdp outcome \<times> unit outcome) \<Rightarrow> (string \<times> pcref) list \<Rightarrow> hook
     \<Rightarrow> hook \<times> action list" where
  "createOffers_finish settle [] h = (h, [])"
| "createOffers_finish settle ((viewerId, pc) # pending) h =
     (case createOffer_created pc (fst (settle viewerId)) h of
        (h1, acts1, None) \<Rightarrow>
          (case createOffers_finish settle pending h1 of
             (h3, acts3) \<Rightarrow> (h3, acts1 @ acts3))
      | (h1, acts1, Some offer) \<Rightarrow>
          (case createOffer_described viewerId pc offer (snd (settle viewerId)) h1 of
             (h2, acts2) \<Rightarrow>
               (case createOffers_finish settle pending h2 of
                  (h3, acts3) \<Rightarrow> (h3, acts1 @ acts2 @ acts3))))"

text \<open>
  \<open>restartStream\<close> up to the end of its \<open>finally\<close>: the offers it has started are
  still waiting.
\<close>

definition restartStream_start ::
  "media \<Rightarrow> attach \<Rightarrow> streamer_page \<Rightarrow> streamer_page \<times> action list \<times> (string \<times> pcref) list" where
  "restartStream_start env att p =
     (case sp_roomId p of
        None \<Rightarrow> (sp_setError (Some ''Room has expired, please restart streaming'') p, [], [])
      | Some r \<Rightarrow>
          if \<not> truthy (Some r)
          then (sp_setError (Some ''Room has expired, please restart streaming'') p, [], [])
          else
            (let p1 = sp_setError None (p\<lparr>isInitializing := True\<rparr>);
                 p2 = p1\<lparr>sp_status := Status ''Resuming stream...''\<rparr>;
                 resumed = [SocketEmit (EmitStreamResumed r)]
             in case startStreamCore env att p2 of
                  (p3, Inl msg) \<Rightarrow>
                    ((sp_setError (Some msg) p3)\<lparr>sp_status := Status ''Restart failed'',
                                                 isInitializing := False\<rparr>,
                     resumed, [])
                | (p3, Inr _) \<Rightarrow>
                    (let p4 = p3\<lparr>sp_status := Status ''Streaming live''\<rparr>
                     in case createOffers_start (viewersRef p4) (sp_hook p4) of
                          (h5, acts, pending) \<Rightarrow>
                            (p4\<lparr>sp_hook := h5, isInitializing := False\<rparr>,
                             resumed @ acts, pending))))"

definition restartStream ::
  "media \<Rightarrow> attach \<Rightarrow> (string \<Rightarrow> sdp outcome \<times> unit outcome) \<Rightarrow> streamer_page
     \<Rightarrow> streamer_page \<times> action list" where
  "restartStream env att settle p =
     (case restartStream_start env att p of
        (p1, acts1, pending) \<Rightarrow>
          (case createOffers_finish settle pending (sp_hook p1) of
             (h2, acts2) \<Rightarrow> (p1\<lparr>sp_hook := h2\<rparr>, acts1 @ acts2)))"

text \<open>The handlers of \<open>viewer-joined\<close> and \<open>viewer-left\<close>.\<close>

definition onViewerJoined ::
  "string \<Rightarrow> streamer_page \<Rightarrow> streamer_page \<times> action list \<times> pcref option" where
  "onViewerJoined viewerId p =
     (let p1 = p\<lparr>viewersRef := set_add (viewersRef p) viewerId\<rparr>;
          p2 = p1\<lparr>viewerCount := length (viewersRef p1),
                 sp_status := StatusCount ''Viewer connected ('' (length (viewersRef p1))
                                '' watching)''\<rparr>
      in case createOffer_start viewerId (sp_hook p2) of
           (h3, acts, waiting) \<Rightarrow> (p2\<lparr>sp_hook := h3\<rparr>, acts, waiting))"

definition onViewerLeft :: "string \<Rightarrow> streamer_page \<Rightarrow> streamer_page" where
  "onViewerLeft viewerId p =
     (let p1 = p\<lparr>sp_hook := cleanupViewerConnection viewerId (sp_hook p)\<rparr>;
          p2 = p1\<lparr>viewersRef := set_delete (viewersRef p1) viewerId\<rparr>;
          p3 = p2\<lparr>viewerCount := length (viewersRef p2)\<rparr>
      in p3\<lparr>sp_status :=
              (if length (viewersRef p3) > 0
               then StatusCount ''Streaming live ('' (length (viewersRef p3)) '' watching)''
               else Status ''Ready - waiting for viewers to connect'')\<rparr>)"

text \<open>The offers among the steps taken, as (offer, target) pairs in order.\<close>

fun offers_sent :: "action list \<Rightarrow> (sdp \<times> string) list" where
  "offers_sent [] = []"
| "offers_sent (SocketEmit (EmitOffer offer target) # acts) = (offer, target) # offers_sent acts"
| "offers_sent (a # acts) = offers_sent acts"


section \<open>The viewer page (app/viewer/[roomId]/page.tsx)\<close>

text \<open>
  The page's React state and refs, with the hook's state inside. \<open>retryTimeoutRef\<close>
  holds the timer last scheduled, as its delay in milliseconds.
\<close>

record viewer_page =
  vp_status :: status
  hasJoinedRoom :: bool
  isJoining :: bool
  isProcessingOffer :: bool
  needsUserInteraction :: bool
  isStreamPaused :: bool
  isVideoPlaying :: bool
  retryCountRef :: nat
  retryTimeoutRef :: "nat option"
  vp_roomId :: string
  vp_hook :: hook

definition vp_setError :: "string option \<Rightarrow> viewer_page \<Rightarrow> viewer_page" where
  "vp_setError e p = p\<lparr>vp_hook := (vp_hook p)\<lparr>error := e\<rparr>\<rparr>"

text \<open>
  \<open>joinRoom\<close> up to its \<open>socket.emit\<close>. The function is a closure: it sees the values
  \<open>isJoining\<close> and \<open>hasJoinedRoom\<close> had at the render that created it, which are its
  first two arguments here. \<open>waitForSocketConnected\<close> gives up silently after its
  timeout, so the request is emitted in any case.
\<close>

definition joinRoom :: "bool \<Rightarrow> bool \<Rightarrow> viewer_page \<Rightarrow> viewer_page \<times> action list" where
  "joinRoom isJoining_seen hasJoinedRoom_seen p =
     (if vp_roomId p = [] then (vp_setError (Some ''Invalid room ID'') p, [])
      else if isJoining_seen \<or> hasJoinedRoom_seen then (p, [])
      else
        (vp_setError None
           (p\<lparr>isJoining := True, vp_status := Status ''Joining signaling room...''\<rparr>),
         [SocketEmit (EmitJoinRoom (vp_roomId p))]))"

text \<open>The callback \<open>joinRoom\<close> passes with \<open>join-room\<close>, run on the server's response.\<close>

definition joinRoom_callback :: "response \<Rightarrow> viewer_page \<Rightarrow> viewer_page" where
  "joinRoom_callback r p =
     (case (case r of Error e \<Rightarrow> if truthy (Some e) then Some e else None | _ \<Rightarrow> None) of
        Some e \<Rightarrow>
          (vp_setError (Some e) p)\<lparr>vp_status := Status ''Failed to join signaling room'',
                                    isJoining := False\<rparr>
      | None \<Rightarrow>
          p\<lparr>hasJoinedRoom := True,
            vp_status := Status ''Signaling connected - waiting for media stream...'',
            isJoining := False,
            retryCountRef := 0\<rparr>)"

text \<open>\<open>handleReconnect\<close>, the manual reconnect; it is a closure over \<open>joinRoom\<close>.\<close>

definition handleReconnect :: "bool \<Rightarrow> bool \<Rightarrow> viewer_page \<Rightarrow> viewer_page \<times> action list" where
  "handleReconnect isJoining_seen hasJoinedRoom_seen p =
     (let (p1, acts1) = (case retryTimeoutRef p of
                           Some t \<Rightarrow> (p\<lparr>retryTimeoutRef := None\<rparr>, [ClearTimeout])
                         | None \<Rightarrow> (p, []));
          p2 = p1\<lparr>vp_hook := cleanup (vp_hook p1)\<rparr>;
          p3 = p2\<lparr>retryCountRef := 0\<rparr>;
          p4 = p3\<lparr>hasJoinedRoom := False, isProcessingOffer := False,
                 needsUserInteraction := False, isStreamPaused := False,
                 isVideoPlaying := False\<rparr>;
          p5 = (vp_setError None p4)\<lparr>vp_status := Status ''Reconnecting signaling + WebRTC...''\<rparr>;
          (p6, acts6) = joinRoom isJoining_seen hasJoinedRoom_seen p5
      in (p6, acts1 @ acts6))"

text \<open>
  The auto-retry effect. React runs its body when \<open>connectionState\<close> (or another
  dependency) has changed, after the cleanup the previous run returned, if it returned
  one. The body's result says whether this run returns a cleanup.
\<close>

definition shouldRetry :: "connState \<Rightarrow> bool" where
  "shouldRetry cs = (cs = Failed \<or> cs = Disconnected)"

definition autoRetry :: "viewer_page \<Rightarrow> viewer_page \<times> action list \<times> bool" where
  "autoRetry p =
     (if \<not> shouldRetry (connectionState (vp_hook p)) then (p, [], False)
      else
        (let p1 = p\<lparr>retryCountRef := retryCountRef p + 1\<rparr>
         in if retryCountRef p1 > 5
            then (p1\<lparr>vp_status := Status ''WebRTC failed after multiple retries''\<rparr>, [], False)
            else
              (let delay = 2000 * retryCountRef p1
               in (p1\<lparr>retryTimeoutRef := Some delay\<rparr>,
                   (case retryTimeoutRef p1 of Some t \<Rightarrow> [ClearTimeout] | None \<Rightarrow> [])
                     @ [SetTimeout delay],
                   True))))"

definition autoRetry_cleanup :: "viewer_page \<Rightarrow> viewer_page \<times> action list" where
  "autoRetry_cleanup p =
     (case retryTimeoutRef p of
        Some t \<Rightarrow> (p\<lparr>retryTimeoutRef := None\<rparr>, [ClearTimeout])
      | None \<Rightarrow> (p, []))"

text \<open>The timer's callback, a closure over \<open>webrtcConnected\<close> and \<open>isJoining\<close>.\<close>

definition retry_timer_fired ::
  "bool \<Rightarrow> bool \<Rightarrow> bool \<Rightarrow> viewer_page \<Rightarrow> viewer_page \<times> action list" where
  "retry_timer_fired webrtcConnected_seen isJoining_seen hasJoinedRoom_seen p =
     (if \<not> webrtcConnected_seen \<and> \<not> isJoining_seen
      then handleReconnect isJoining_seen hasJoinedRoom_seen p
      else (p, []))"

text \<open>
  The viewer's connection enters state \<open>cs\<close>: the hook publishes it as
  \<open>connectionState\<close>, and the effect runs again (cleanup first, if the last run
  returned one). \<open>registered\<close> carries that from one run to the next.
\<close>

definition enter_state ::
  "connState \<Rightarrow> bool \<times> viewer_page \<Rightarrow> (bool \<times> viewer_page) \<times> action list" where
  "enter_state cs rp =
     (let p0 = (snd rp)\<lparr>vp_hook := (vp_hook (snd rp))\<lparr>connectionState := cs,
                                                      isConnected := (cs = Connected)\<rparr>\<rparr>;
          (p1, acts1) = (if fst rp then autoRetry_cleanup p0 else (p0, []));
          (p2, acts2, registered) = autoRetry p1
      in ((registered, p2), acts1 @ acts2))"

fun enter_states ::
  "connState list \<Rightarrow> bool \<times> viewer_page \<Rightarrow> (bool \<times> viewer_page) \<times> action list" where
  "enter_states [] rp = (rp, [])"
| "enter_states (cs # rest) rp =
     (case enter_state cs rp of
        (rp1, acts1) \<Rightarrow> (case enter_states rest rp1 of (rp2, acts2) \<Rightarrow> (rp2, acts1 @ acts2)))"

text \<open>The delays of the timers scheduled among the steps taken, in order.\<close>

fun scheduled :: "action list \<Rightarrow> nat list" where
  "scheduled [] = []"
| "scheduled (SetTimeout delay # acts) = delay # scheduled acts"
| "scheduled (a # acts) = scheduled acts"

text \<open>
  Receiving an offer. \<open>shouldProcessOffer\<close> and \<open>onOffer\<close> are closures over
  \<open>webrtcConnected\<close>, \<open>connectionState\<close> and \<open>isProcessingOffer\<close>.
\<close>

definition shouldProcessOffer :: "bool \<Rightarrow> connState \<Rightarrow> bool \<Rightarrow> bool" where
  "shouldProcessOffer webrtcConnected_seen connectionState_seen isProcessingOffer_seen =
     (if webrtcConnected_seen \<and> connectionState_seen = Connected then False
      else if isProcessingOffer_seen then False
      else True)"


definition onOffer ::
  "bool \<Rightarrow> connState \<Rightarrow> bool \<Rightarrow> sdp \<Rightarrow> string \<Rightarrow> viewer_page
     \<Rightarrow> viewer_page \<times> action list \<times> pcref option" where
  "onOffer webrtcConnected_seen connectionState_seen isProcessingOffer_seen offer sender p =
     (if \<not> shouldProcessOffer webrtcConnected_seen connectionState_seen isProcessingOffer_seen
      then (p, [], None)
      else
        (let p1 = p\<lparr>isProcessingOffer := True,
                    vp_status := Status ''Negotiating WebRTC session...''\<rparr>
         in case createAnswer_start offer sender (vp_hook p1) of
              (h, acts, None) \<Rightarrow> (p1\<lparr>vp_hook := h, isProcessingOffer := False\<rparr>, acts, None)
            | (h, acts, Some pc) \<Rightarrow> (p1\<lparr>vp_hook := h\<rparr>, acts, Some pc)))"

text \<open>
  An \<open>offer\<close> event reaches two listeners: the hook's own, registered first, which
  calls \<open>createAnswer\<close> directly, and then the page's \<open>onOffer\<close>. The result gives
  what each call is left waiting on.
\<close>

definition offer_received ::
  "bool \<Rightarrow> connState \<Rightarrow> bool \<Rightarrow> sdp \<Rightarrow> string \<Rightarrow> viewer_page
     \<Rightarrow> viewer_page \<times> action list \<times> pcref option \<times> pcref option" where
  "offer_received webrtcConnected_seen connectionState_seen isProcessingOffer_seen offer sender p =
     (case createAnswer_start offer sender (vp_hook p) of
        (h, acts1, waiting1) \<Rightarrow>
          (case onOffer webrtcConnected_seen connectionState_seen isProcessingOffer_seen
                  offer sender (p\<lparr>vp_hook := h\<rparr>) of
             (p2, acts2, waiting2) \<Rightarrow> (p2, acts1 @ acts2, waiting1, waiting2)))"

section \<open>Notions used in the statements\<close>

text \<open>Every connection the hook refers to has been allocated.\<close>

definition refs_allocated :: "hook \<Rightarrow> bool" where
  "refs_allocated h =
     (list_all (\<lambda>q. snd q < nextPc h) (peerConnections h)
      \<and> (case peerConnection h of Some pc \<Rightarrow> pc < nextPc h | None \<Rightarrow> True))"

text \<open>Every promise of every offer resolves; viewer \<open>v\<close>'s offer is \<open>sdp_of v\<close>.\<close>

definition all_resolve :: "(string \<Rightarrow> sdp) \<Rightarrow> string \<Rightarrow> sdp outcome \<times> unit outcome" where
  "all_resolve sdp_of v = (Resolved (sdp_of v), Resolved ())"

text \<open>The streamer role can send an offer: it has a socket and a local stream.\<close>

definition can_offer :: "hook \<Rightarrow> bool" where
  "can_offer h = (socket h \<and> isStreamer h \<and> localStream h \<noteq> None)"

section \<open>Example client states\<close>

definition initial_hook :: "bool \<Rightarrow> bool \<Rightarrow> hook" where
  "initial_hook sock streamer_role =
     \<lparr>socket = sock, isStreamer = streamer_role, isConnected = False, error = None,
      connectionState = New, remoteStream = None, peerConnection = None, localStream = None,
      peerConnections = [], processingOffers = [], heap = (\<lambda>pc. new_pc), nextPc = 0,
      stopped = {}\<rparr>"

definition camera :: "track list" where
  "camera = [(0, Video), (1, Audio)]"

definition viewer_session :: "string \<Rightarrow> connState \<Rightarrow> pc" where
  "viewer_session viewerId cs =
     new_pc\<lparr>pc_connectionState := cs,
            onconnectionstatechange := Some (ForViewer viewerId),
            onicecandidate := Some (ForViewer viewerId),
            onicecandidateerror := Some (ForViewer viewerId),
            senders := camera\<rparr>"

definition two_viewers :: hook where
  "two_viewers =
     (initial_hook True True)\<lparr>
        isConnected := True, connectionState := Connected, localStream := Some camera,
        peerConnections := [(''v1'', 0), (''v2'', 1)],
        heap := (\<lambda>pc. new_pc)(0 := viewer_session ''v1'' Disconnected,
                                1 := viewer_session ''v2'' Connected),
        nextPc := 2\<rparr>"

definition streamer_session :: "string \<Rightarrow> sigState \<Rightarrow> pc" where
  "streamer_session streamerId ss =
     new_pc\<lparr>pc_signalingState := ss,
            onconnectionstatechange := Some (ForStreamer streamerId),
            onicecandidate := Some (ForStreamer streamerId),
            ontrack := Some (ForStreamer streamerId)\<rparr>"

definition viewer_waiting :: hook where
  "viewer_waiting =
     (initial_hook True False)\<lparr>
        peerConnection := Some 0, processingOffers := [''s''],
        heap := (\<lambda>pc. new_pc)(0 := (streamer_session ''s'' HaveRemoteOffer)\<lparr>
                                        remoteDescription := Some ''offer1''\<rparr>),
        nextPc := 1\<rparr>"

definition viewer_playing :: hook where
  "viewer_playing =
     (initial_hook True False)\<lparr>
        isConnected := True, connectionState := Connected, remoteStream := Some 7,
        peerConnection := Some 0,
        heap := (\<lambda>pc. new_pc)(0 := (streamer_session ''s'' Stable)\<lparr>
                                        pc_connectionState := Connected,
                                        remoteDescription := Some ''offer1'',
                                        localDescription := Some ''answer1''\<rparr>),
        nextPc := 1\<rparr>"

definition initial_viewer_page :: viewer_page where
  "initial_viewer_page =
     \<lparr>vp_status = Status ''Connecting...'', hasJoinedRoom = False, isJoining = False,
      isProcessingOffer = False, needsUserInteraction = False, isStreamPaused = False,
      isVideoPlaying = False, retryCountRef = 0, retryTimeoutRef = None,
      vp_roomId = ''dev-room-001'', vp_hook = initial_hook True False\<rparr>"

text \<open>
  A streamer page that has paused its stream: room \<open>dev-room-001\<close>, viewers \<open>v1\<close>
  and \<open>v2\<close> with the sessions of \<open>two_viewers\<close>, no local stream.
\<close>

definition paused_page :: streamer_page where
  "paused_page =
     \<lparr>sp_roomId = Some ''dev-room-001'', viewerCount = 2,
      sp_status = Status ''Stream paused - press Play to resume'', isStreaming = False,
      isInitializing = False, videoMounted = True, videoSrc = None,
      viewersRef = [''v1'', ''v2''],
      sp_hook = two_viewers\<lparr>localStream := None, stopped := {0, 1}\<rparr>\<rparr>"

definition live_page :: streamer_page where
  "live_page =
     paused_page\<lparr>sp_status := Status ''Streaming live'', isStreaming := True,
                  videoSrc := Some camera, sp_hook := two_viewers\<rparr>"

text \<open>
  The viewer page after five entries into \<open>failed\<close> or \<open>disconnected\<close> in a row: the
  fifth timer is pending and the effect has returned its cleanup.
\<close>

definition five_attempts :: viewer_page where
  "five_attempts =
     initial_viewer_page\<lparr>
       retryCountRef := 5, retryTimeoutRef := Some 10000,
       vp_hook := (initial_hook True False)\<lparr>connectionState := Failed\<rparr>\<rparr>"

section \<open>Properties of the signaling server\<close>

subsection \<open>Containers\<close>

lemma map_get_map_set: "map_get (map_set m k v) k = Some v"
  by (induction m) (auto simp: map_get_def)

lemma map_get_map_set_other: "k' \<noteq> k \<Longrightarrow> map_get (map_set m k v) k' = map_get m k'"
  by (induction m) (auto simp: map_get_def)

lemma map_get_map_delete: "map_get (map_delete m k) k = None"
  by (induction m) (auto simp: map_get_def map_delete_def)

lemma map_get_map_delete_other: "k' \<noteq> k \<Longrightarrow> map_get (map_delete m k) k' = map_get m k'"
  by (induction m) (auto simp: map_get_def map_delete_def)

lemma distinct_fst_imp_distinct: "distinct (map fst m) \<Longrightarrow> distinct m"
  by (induction m) (auto simp: rev_image_eqI)

lemma distinct_filter_eq_one:
  "distinct xs \<Longrightarrow> x \<in> set xs \<Longrightarrow> length (filter (\<lambda>p. p = x) xs) = 1"
  by (induction xs) (auto simp: filter_empty_conv)

subsection \<open>The example states, evaluated\<close>

lemma one_room_eq:
  "one_room = \<lparr>rooms = [(''dev-room-001'', \<lparr>streamer = ''s'', viewers = []\<rparr>)],
               adapter = ((\<lambda>r. {})(''s'' := {''s''}, ''v'' := {''v''}, ''dev-room-001'' := {''s''}))\<rparr>"
  by (simp add: one_room_def serve_def server0_def create_room_def connection_def
      socket_join_def DEV_ROOM_ID_def Let_def)

lemma one_room_joined_eq:
  "one_room_joined =
     \<lparr>rooms = [(''dev-room-001'', \<lparr>streamer = ''s'', viewers = [''v'']\<rparr>)],
      adapter = ((\<lambda>r. {})(''s'' := {''s''}, ''v'' := {''v''}, ''dev-room-001'' := {''v'', ''s''}))\<rparr>"
  by (simp add: one_room_joined_def serve_def server0_def create_room_def connection_def
      join_room_def map_get_def DEV_ROOM_ID_def set_has_def set_add_def socket_join_def Let_def)

subsection \<open>The disconnect handler\<close>

lemma disconnect_loop_snd:
  "snd (disconnect_loop s todo (rs, effs)) = effs @ concat (map (disconnect_effects s) todo)"
  by (induction todo arbitrary: rs effs) (auto simp: disconnect_effects_def)

lemma disconnect_loop_untouched:
  "k \<notin> fst ` set todo \<Longrightarrow> map_get (fst (disconnect_loop s todo (rs, effs))) k = map_get rs k"
  by (induction todo arbitrary: rs effs)
     (auto simp: map_get_map_set_other map_get_map_delete_other)

lemma disconnect_loop_removed:
  "(k, r) \<in> set todo \<Longrightarrow> distinct (map fst todo) \<Longrightarrow> streamer r = s \<Longrightarrow>
     map_get (fst (disconnect_loop s todo (rs, effs))) k = None"
proof (induction todo arbitrary: rs effs)
  case Nil
  then show ?case by simp
next
  case (Cons p todo)
  obtain k' r' where p: "p = (k', r')" by (cases p)
  show ?case
  proof (cases "k' = k")
    case True
    with Cons.prems p have "r' = r" and notin: "k \<notin> fst ` set todo"
      by (auto simp: rev_image_eqI)
    with True p Cons.prems(3) show ?thesis
      by (simp add: disconnect_loop_untouched map_get_map_delete)
  next
    case False
    with Cons.prems p have "(k, r) \<in> set todo" "distinct (map fst todo)" by auto
    from Cons.IH[OF this Cons.prems(3)] p show ?thesis by simp
  qed
qed

lemma no_delete_outside:
  "k \<notin> fst ` set ps \<Longrightarrow> count_list (concat (map (disconnect_effects s) ps)) (RoomsDelete k) = 0"
  by (induction ps) (auto simp: disconnect_effects_def)

lemma no_streamer_left_outside:
  "k \<notin> fst ` set ps \<Longrightarrow>
     count_list (concat (map (disconnect_effects s) ps)) (Emit s k StreamerLeft) = 0"
  by (induction ps) (auto simp: disconnect_effects_def)

lemma owned_room_split:
  assumes "(k, r) \<in> set todo" and "distinct (map fst todo)"
  obtains before after where "todo = before @ (k, r) # after"
    and "k \<notin> fst ` set before" and "k \<notin> fst ` set after"
proof -
  from assms(1) obtain before after where t: "todo = before @ (k, r) # after"
    by (auto dest: split_list)
  with assms(2) have "k \<notin> fst ` set before" "k \<notin> fst ` set after"
    by auto
  with t that show ?thesis by blast
qed

lemma owned_room_effects:
  assumes "(k, r) \<in> set todo" and "distinct (map fst todo)" and "streamer r = s"
  shows "count_list (concat (map (disconnect_effects s) todo)) (RoomsDelete k) = 1"
    and "count_list (concat (map (disconnect_effects s) todo)) (Emit s k StreamerLeft) = 1"
    and "\<exists>pre post. concat (map (disconnect_effects s) todo)
           = pre @ [Emit s k StreamerLeft, RoomsDelete k] @ post"
proof -
  from assms(1,2) obtain before after where t: "todo = before @ (k, r) # after"
    and b: "k \<notin> fst ` set before" and a: "k \<notin> fst ` set after"
    by (rule owned_room_split)
  have here: "disconnect_effects s (k, r) = [Emit s k StreamerLeft, RoomsDelete k]"
    using assms(3) by (simp add: disconnect_effects_def)
  show "count_list (concat (map (disconnect_effects s) todo)) (RoomsDelete k) = 1"
    using no_delete_outside[OF b, of s] no_delete_outside[OF a, of s] by (simp add: t here)
  show "count_list (concat (map (disconnect_effects s) todo)) (Emit s k StreamerLeft) = 1"
    using no_streamer_left_outside[OF b, of s] no_streamer_left_outside[OF a, of s]
    by (simp add: t here)
  have "concat (map (disconnect_effects s) todo)
          = concat (map (disconnect_effects s) before) @ [Emit s k StreamerLeft, RoomsDelete k]
            @ concat (map (disconnect_effects s) after)"
    by (simp add: t here)
  then show "\<exists>pre post. concat (map (disconnect_effects s) todo)
           = pre @ [Emit s k StreamerLeft, RoomsDelete k] @ post"
    by blast
qed

lemma inbox_disconnect_effects:
  "v \<noteq> s \<Longrightarrow>
   count_list (inbox ad (concat (map (disconnect_effects s) todo)) v) StreamerLeft
     = length (filter (\<lambda>p. streamer (snd p) = s \<and> v \<in> ad (fst p)) todo)"
  by (induction todo) (auto simp: disconnect_effects_def recipients_def)

lemma disconnect_effs:
  "snd (disconnect s st) = concat (map (disconnect_effects s) (rooms st))"
  using disconnect_loop_snd[of s "rooms st" "rooms st" "[]"]
  by (simp add: disconnect_def leave_all_def case_prod_beta Let_def)

lemma disconnect_rooms:
  "rooms (fst (disconnect s st)) = fst (disconnect_loop s (rooms st) (rooms st, []))"
  by (simp add: disconnect_def leave_all_def case_prod_beta Let_def)

lemma disconnect_adapter:
  "adapter (fst (disconnect s st)) = (\<lambda>r. adapter st r - {s})"
  by (simp add: disconnect_def leave_all_def case_prod_beta Let_def)

text \<open>
  Claim C7, as the code has it. When streamer \<open>s\<close> disconnects from a well-formed
  registry, every room it owns, with or without viewers, is gone from the table
  afterwards, removed by exactly one \<open>rooms.delete\<close>, and exactly one
  \<open>streamer-left\<close> broadcast is addressed to that room, immediately before the
  removal. Where the viewers have joined their rooms (every state the server reaches is
  well formed and such: \<open>serve_wf\<close>), the broadcast reaches every remaining viewer
  of the room, and a viewer receives one \<open>streamer-left\<close> for each room of \<open>s\<close>
  it is a member of, exactly one when it has joined a single room of \<open>s\<close>.
\<close>

theorem streamer_disconnect_per_room:
  assumes "registry_wf st" and "(roomId, room) \<in> set (rooms st)" and "streamer room = s"
  shows "map_get (rooms (fst (disconnect s st))) roomId = None
       \<and> count_list (snd (disconnect s st)) (RoomsDelete roomId) = 1
       \<and> count_list (snd (disconnect s st)) (Emit s roomId StreamerLeft) = 1
       \<and> (\<exists>pre post. snd (disconnect s st)
             = pre @ [Emit s roomId StreamerLeft, RoomsDelete roomId] @ post)
       \<and> (viewers_joined st \<longrightarrow>
            (\<forall>v \<in> set (viewers room). v \<noteq> s \<longrightarrow>
               v \<in> recipients (adapter (fst (disconnect s st))) s roomId
               \<and> count_list (inbox (adapter (fst (disconnect s st))) (snd (disconnect s st)) v)
                    StreamerLeft
                   = length (filter (\<lambda>p. streamer (snd p) = s \<and> v \<in> adapter st (fst p)) (rooms st))
               \<and> ((\<forall>p \<in> set (rooms st).
                      streamer (snd p) = s \<and> v \<in> adapter st (fst p) \<longrightarrow> p = (roomId, room))
                    \<longrightarrow> count_list (inbox (adapter (fst (disconnect s st))) (snd (disconnect s st)) v)
                          StreamerLeft = 1)))"
proof -
  from assms(1) have d: "distinct (map fst (rooms st))"
    by (simp add: registry_wf_def)
  have 1: "map_get (rooms (fst (disconnect s st))) roomId = None"
    using disconnect_loop_removed[OF assms(2) d assms(3)] by (simp add: disconnect_rooms)
  note eff = owned_room_effects[OF assms(2) d assms(3)]
  have room_part: "map_get (rooms (fst (disconnect s st))) roomId = None
       \<and> count_list (snd (disconnect s st)) (RoomsDelete roomId) = 1
       \<and> count_list (snd (disconnect s st)) (Emit s roomId StreamerLeft) = 1
       \<and> (\<exists>pre post. snd (disconnect s st)
             = pre @ [Emit s roomId StreamerLeft, RoomsDelete roomId] @ post)"
    using 1 eff by (simp add: disconnect_effs)
  have viewer_part:
    "v \<in> recipients (adapter (fst (disconnect s st))) s roomId
     \<and> count_list (inbox (adapter (fst (disconnect s st))) (snd (disconnect s st)) v) StreamerLeft
         = length (filter (\<lambda>p. streamer (snd p) = s \<and> v \<in> adapter st (fst p)) (rooms st))
     \<and> ((\<forall>p \<in> set (rooms st).
            streamer (snd p) = s \<and> v \<in> adapter st (fst p) \<longrightarrow> p = (roomId, room))
          \<longrightarrow> count_list (inbox (adapter (fst (disconnect s st))) (snd (disconnect s st)) v)
                StreamerLeft = 1)"
    if vj: "viewers_joined st" and v: "v \<in> set (viewers room)" and ne: "v \<noteq> s" for v
  proof -
    from vj assms(2) v have member: "v \<in> adapter st roomId"
      by (auto simp: viewers_joined_def list_all_iff)
    have 5: "v \<in> recipients (adapter (fst (disconnect s st))) s roomId"
      using ne member by (simp add: recipients_def disconnect_adapter)
    have 6: "count_list (inbox (adapter (fst (disconnect s st))) (snd (disconnect s st)) v) StreamerLeft
             = length (filter (\<lambda>p. streamer (snd p) = s \<and> v \<in> adapter st (fst p)) (rooms st))"
      using ne by (simp add: disconnect_effs disconnect_adapter inbox_disconnect_effects)
    have 7: "count_list (inbox (adapter (fst (disconnect s st))) (snd (disconnect s st)) v)
                    StreamerLeft = 1"
      if only: "\<forall>p \<in> set (rooms st). streamer (snd p) = s \<and> v \<in> adapter st (fst p) \<longrightarrow> p = (roomId, room)"
    proof -
      from d have dr: "distinct (rooms st)"
        by (rule distinct_fst_imp_distinct)
      have "filter (\<lambda>p. streamer (snd p) = s \<and> v \<in> adapter st (fst p)) (rooms st)
              = filter (\<lambda>p. p = (roomId, room)) (rooms st)"
        using only assms(3) member by (intro filter_cong) auto
      also have "length \<dots> = 1"
        using dr assms(2) by (simp add: distinct_filter_eq_one)
      finally show ?thesis using 6 by simp
    qed
    from 5 6 7 show ?thesis by blast
  qed
  from room_part viewer_part show ?thesis
    by blast
qed

theorem streamer_disconnect_per_room_witness:
  "registry_wf one_room
   \<and> (DEV_ROOM_ID, \<lparr>streamer = ''s'', viewers = []\<rparr>) \<in> set (rooms one_room)
   \<and> map_get (rooms (fst (disconnect ''s'' one_room))) DEV_ROOM_ID = None
   \<and> count_list (snd (disconnect ''s'' one_room)) (RoomsDelete DEV_ROOM_ID) = 1
   \<and> count_list (snd (disconnect ''s'' one_room)) (Emit ''s'' DEV_ROOM_ID StreamerLeft) = 1
   \<and> registry_wf one_room_joined \<and> viewers_joined one_room_joined
   \<and> (DEV_ROOM_ID, \<lparr>streamer = ''s'', viewers = [''v'']\<rparr>) \<in> set (rooms one_room_joined)
   \<and> map_get (rooms (fst (disconnect ''s'' one_room_joined))) DEV_ROOM_ID = None
   \<and> count_list (snd (disconnect ''s'' one_room_joined)) (RoomsDelete DEV_ROOM_ID) = 1
   \<and> count_list (snd (disconnect ''s'' one_room_joined)) (Emit ''s'' DEV_ROOM_ID StreamerLeft) = 1
   \<and> ''v'' \<in> recipients (adapter (fst (disconnect ''s'' one_room_joined))) ''s'' DEV_ROOM_ID
   \<and> count_list (inbox (adapter (fst (disconnect ''s'' one_room_joined)))
                      (snd (disconnect ''s'' one_room_joined)) ''v'') StreamerLeft = 1"
proof -
  have wf0: "registry_wf one_room"
    by (simp add: one_room_eq registry_wf_def)
  have r0: "(DEV_ROOM_ID, \<lparr>streamer = ''s'', viewers = []\<rparr>) \<in> set (rooms one_room)"
    by (simp add: one_room_eq DEV_ROOM_ID_def)
  have s0: "streamer \<lparr>streamer = ''s'', viewers = []\<rparr> = ''s''"
    by simp
  note inst0 = streamer_disconnect_per_room[OF wf0 r0 s0]
  have empty_room: "map_get (rooms (fst (disconnect ''s'' one_room))) DEV_ROOM_ID = None
   \<and> count_list (snd (disconnect ''s'' one_room)) (RoomsDelete DEV_ROOM_ID) = 1
   \<and> count_list (snd (disconnect ''s'' one_room)) (Emit ''s'' DEV_ROOM_ID StreamerLeft) = 1"
    using inst0[THEN conjunct1] inst0[THEN conjunct2, THEN conjunct1]
      inst0[THEN conjunct2, THEN conjunct2, THEN conjunct1]
    by (intro conjI)
  have wf: "registry_wf one_room_joined"
    by (simp add: one_room_joined_eq registry_wf_def)
  have vj: "viewers_joined one_room_joined"
    by (simp add: one_room_joined_eq viewers_joined_def)
  have r: "(DEV_ROOM_ID, \<lparr>streamer = ''s'', viewers = [''v'']\<rparr>) \<in> set (rooms one_room_joined)"
    by (simp add: one_room_joined_eq DEV_ROOM_ID_def)
  have s: "streamer \<lparr>streamer = ''s'', viewers = [''v'']\<rparr> = ''s''"
    by simp
  have v: "''v'' \<in> set (viewers \<lparr>streamer = ''s'', viewers = [''v'']\<rparr>)"
    by simp
  have ne: "''v'' \<noteq> ''s''"
    by simp
  have only: "\<forall>p \<in> set (rooms one_room_joined).
                streamer (snd p) = ''s'' \<and> ''v'' \<in> adapter one_room_joined (fst p)
                  \<longrightarrow> p = (DEV_ROOM_ID, \<lparr>streamer = ''s'', viewers = [''v'']\<rparr>)"
    by (simp add: one_room_joined_eq DEV_ROOM_ID_def)
  note inst = streamer_disconnect_per_room[OF wf r s]
  note viewer = inst[THEN conjunct2, THEN conjunct2, THEN conjunct2, THEN conjunct2,
      THEN mp, OF vj, THEN bspec, OF v, THEN mp, OF ne]
  have joined_room: "map_get (rooms (fst (disconnect ''s'' one_room_joined))) DEV_ROOM_ID = None
   \<and> count_list (snd (disconnect ''s'' one_room_joined)) (RoomsDelete DEV_ROOM_ID) = 1
   \<and> count_list (snd (disconnect ''s'' one_room_joined)) (Emit ''s'' DEV_ROOM_ID StreamerLeft) = 1
   \<and> ''v'' \<in> recipients (adapter (fst (disconnect ''s'' one_room_joined))) ''s'' DEV_ROOM_ID
   \<and> count_list (inbox (adapter (fst (disconnect ''s'' one_room_joined)))
                      (snd (disconnect ''s'' one_room_joined)) ''v'') StreamerLeft = 1"
    using inst[THEN conjunct1] inst[THEN conjunct2, THEN conjunct1]
      inst[THEN conjunct2, THEN conjunct2, THEN conjunct1]
      viewer[THEN conjunct1] viewer[THEN conjunct2, THEN conjunct2, THEN mp, OF only]
    by (intro conjI)
  from wf0 r0 empty_room[THEN conjunct1] empty_room[THEN conjunct2, THEN conjunct1]
    empty_room[THEN conjunct2, THEN conjunct2] wf vj r
    joined_room[THEN conjunct1] joined_room[THEN conjunct2, THEN conjunct1]
    joined_room[THEN conjunct2, THEN conjunct2, THEN conjunct1]
    joined_room[THEN conjunct2, THEN conjunct2, THEN conjunct2, THEN conjunct1]
    joined_room[THEN conjunct2, THEN conjunct2, THEN conjunct2, THEN conjunct2]
  show ?thesis
    by (intro conjI)
qed

text \<open>
  Claim C7 as stated fails where one streamer owns two rooms that share a viewer: the
  loop broadcasts once per owned room, and the viewer receives \<open>streamer-left\<close> twice.
\<close>

theorem streamer_left_twice_counterexample:
  "inbox (adapter (fst (disconnect ''s'' two_rooms))) (snd (disconnect ''s'' two_rooms)) ''v''
     = [StreamerLeft, StreamerLeft]"
  by (simp add: two_rooms_def serve_def server0_def connection_def create_room_def
      join_room_def socket_join_def map_get_def set_has_def set_add_def disconnect_def
      leave_all_def map_delete_def recipients_def Let_def)


subsection \<open>Joining a room\<close>

lemma distinct_count_one: "distinct xs \<Longrightarrow> x \<in> set xs \<Longrightarrow> count_list xs x = 1"
  by (induction xs) auto

lemma map_get_in_set: "map_get m k = Some v \<Longrightarrow> (k, v) \<in> set m"
  by (simp add: map_get_def map_of_SomeD)

lemma registry_wf_viewers:
  "registry_wf st \<Longrightarrow> map_get (rooms st) roomId = Some room \<Longrightarrow> distinct (viewers room)"
  by (auto simp: registry_wf_def list_all_iff dest!: map_get_in_set)

lemma join_room_absent:
  "map_get (rooms st) roomId = None \<Longrightarrow>
     join_room s roomId st = (st, [Callback (Error ''Room does not exist'')])"
  by (simp add: join_room_def)

lemma join_room_member:
  "map_get (rooms st) roomId = Some room \<Longrightarrow> set_has (viewers room) s \<Longrightarrow>
     join_room s roomId st = (st, [Callback Success])"
  by (simp add: join_room_def)

lemma join_room_fresh:
  "map_get (rooms st) roomId = Some room \<Longrightarrow> \<not> set_has (viewers room) s \<Longrightarrow>
     join_room s roomId st =
       (socket_join s roomId
          (st\<lparr>rooms := map_set (rooms st) roomId (room\<lparr>viewers := viewers room @ [s]\<rparr>)\<rparr>),
        [Join s roomId, Emit s (streamer room) (ViewerJoined s), Callback Success])"
  by (simp add: join_room_def set_add_def set_has_def Let_def)

lemma rooms_socket_join: "rooms (socket_join s r st) = rooms st"
  by (simp add: socket_join_def)

text \<open>
  Claim C4. In a well-formed registry, \<open>join-room\<close> on an absent room answers
  \<open>{error: "Room does not exist"}\<close> and leaves the state as it was; on an existing room
  the first join answers success, the second join by the same socket answers success
  too and changes nothing, and the room's viewer set then holds the socket exactly once.
\<close>

theorem join_room_absent_or_idempotent:
  assumes "registry_wf st"
  shows "(map_get (rooms st) roomId = None \<longrightarrow>
            join_room s roomId st = (st, [Callback (Error ''Room does not exist'')]))
       \<and> (map_get (rooms st) roomId \<noteq> None \<longrightarrow>
            callbacks (snd (join_room s roomId st)) = [Success]
          \<and> join_room s roomId (fst (join_room s roomId st))
              = (fst (join_room s roomId st), [Callback Success])
          \<and> (\<exists>room. map_get (rooms (fst (join_room s roomId (fst (join_room s roomId st))))) roomId
                        = Some room
                    \<and> count_list (viewers room) s = 1))"
proof (intro conjI impI)
  assume "map_get (rooms st) roomId = None"
  then show "join_room s roomId st = (st, [Callback (Error ''Room does not exist'')])"
    by (rule join_room_absent)
next
  assume "map_get (rooms st) roomId \<noteq> None"
  then obtain room where room: "map_get (rooms st) roomId = Some room" by auto
  have dv: "distinct (viewers room)"
    using assms room by (rule registry_wf_viewers)
  let ?st1 = "fst (join_room s roomId st)"
  have first: "callbacks (snd (join_room s roomId st)) = [Success]
      \<and> (\<exists>room1. map_get (rooms ?st1) roomId = Some room1 \<and> set_has (viewers room1) s
                 \<and> count_list (viewers room1) s = 1)"
  proof (cases "set_has (viewers room) s")
    case True
    with dv have "count_list (viewers room) s = 1"
      by (simp add: set_has_def distinct_count_one)
    with room True show ?thesis
      by (simp add: join_room_member)
  next
    case False
    then have "count_list (viewers room @ [s]) s = 1"
      by (simp add: set_has_def)
    with room False show ?thesis
      by (simp add: join_room_fresh rooms_socket_join map_get_map_set set_has_def)
  qed
  then obtain room1 where r1: "map_get (rooms ?st1) roomId = Some room1"
    and m1: "set_has (viewers room1) s" and c1: "count_list (viewers room1) s = 1"
    by blast
  from first show "callbacks (snd (join_room s roomId st)) = [Success]" by simp
  show second: "join_room s roomId ?st1 = (?st1, [Callback Success])"
    using r1 m1 by (rule join_room_member)
  show "\<exists>room. map_get (rooms (fst (join_room s roomId ?st1))) roomId = Some room
                    \<and> count_list (viewers room) s = 1"
    using r1 c1 by (simp add: second)
qed

theorem join_room_absent_or_idempotent_witness:
  "registry_wf one_room
   \<and> map_get (rooms one_room) ''no-such-room'' = None
   \<and> join_room ''v'' ''no-such-room'' one_room
       = (one_room, [Callback (Error ''Room does not exist'')])
   \<and> map_get (rooms one_room) DEV_ROOM_ID = Some \<lparr>streamer = ''s'', viewers = []\<rparr>
   \<and> callbacks (snd (join_room ''v'' DEV_ROOM_ID one_room)) = [Success]
   \<and> join_room ''v'' DEV_ROOM_ID (fst (join_room ''v'' DEV_ROOM_ID one_room))
       = (fst (join_room ''v'' DEV_ROOM_ID one_room), [Callback Success])"
proof -
  have wf: "registry_wf one_room"
    by (simp add: one_room_eq registry_wf_def)
  have absent: "map_get (rooms one_room) ''no-such-room'' = None"
    by (simp add: one_room_eq map_get_def)
  have present: "map_get (rooms one_room) DEV_ROOM_ID = Some \<lparr>streamer = ''s'', viewers = []\<rparr>"
    by (simp add: one_room_eq map_get_def DEV_ROOM_ID_def)
  from join_room_absent_or_idempotent[OF wf, of "''no-such-room''" "''v''"] absent
    join_room_absent_or_idempotent[OF wf, of DEV_ROOM_ID "''v''"] present wf
  show ?thesis by simp
qed

text \<open>
  Claim C9. A \<open>join-room\<close> from a socket that is already in the room's viewer set
  answers success through the callback and does nothing else: the server state (table
  and memberships) is unchanged, the callback is the handler's only step, so no
  \<open>viewer-joined\<close> is emitted and the streamer receives nothing.
\<close>

theorem duplicate_join_is_silent:
  assumes "map_get (rooms st) roomId = Some room" and "set_has (viewers room) s"
  shows "join_room s roomId st = (st, [Callback Success])
       \<and> inbox (adapter st) (snd (join_room s roomId st)) (streamer room) = []"
  using assms by (simp add: join_room_member)

theorem duplicate_join_is_silent_witness:
  "map_get (rooms one_room_joined) DEV_ROOM_ID = Some \<lparr>streamer = ''s'', viewers = [''v'']\<rparr>
   \<and> set_has (viewers \<lparr>streamer = ''s'', viewers = [''v'']\<rparr>) ''v''
   \<and> join_room ''v'' DEV_ROOM_ID one_room_joined = (one_room_joined, [Callback Success])
   \<and> inbox (adapter one_room_joined) (snd (join_room ''v'' DEV_ROOM_ID one_room_joined)) ''s'' = []"
proof -
  have a: "map_get (rooms one_room_joined) DEV_ROOM_ID
             = Some \<lparr>streamer = ''s'', viewers = [''v'']\<rparr>"
    by (simp add: one_room_joined_eq map_get_def DEV_ROOM_ID_def)
  have b: "set_has (viewers \<lparr>streamer = ''s'', viewers = [''v'']\<rparr>) ''v''"
    by (simp add: set_has_def)
  from duplicate_join_is_silent[OF a b] a b show ?thesis by simp
qed

subsection \<open>The registry stays well formed\<close>

lemma map_set_keys:
  "map fst (map_set m k v) = (if k \<in> fst ` set m then map fst m else map fst m @ [k])"
  by (induction m) (auto simp: rev_image_eqI)

lemma distinct_map_set: "distinct (map fst m) \<Longrightarrow> distinct (map fst (map_set m k v))"
  by (simp add: map_set_keys)

lemma list_all_map_set: "list_all P m \<Longrightarrow> P (k, v) \<Longrightarrow> list_all P (map_set m k v)"
  by (induction m) auto

lemma map_set_entries:
  "(a, b) \<in> set (map_set m k v) \<Longrightarrow> (a, b) = (k, v) \<or> (a, b) \<in> set m"
  by (induction m) (auto split: if_splits)

lemma filter_other_keys: "k \<notin> fst ` set m \<Longrightarrow> filter (\<lambda>p. fst p \<noteq> k) m = m"
  by (induction m) auto

lemma map_delete_middle:
  "k \<notin> fst ` set pre \<Longrightarrow> k \<notin> fst ` set rest \<Longrightarrow> map_delete (pre @ (k, r) # rest) k = pre @ rest"
  by (simp add: map_delete_def filter_other_keys)

lemma map_set_middle:
  "k \<notin> fst ` set pre \<Longrightarrow> map_set (pre @ (k, r) # rest) k r' = pre @ (k, r') # rest"
  by (induction pre) auto

lemma disconnect_loop_table:
  "distinct (map fst (pre @ todo)) \<Longrightarrow>
     fst (disconnect_loop s todo (pre @ todo, effs))
       = pre @ map (\<lambda>p. (fst p, disconnect_room s (snd p)))
                 (filter (\<lambda>p. streamer (snd p) \<noteq> s) todo)"
proof (induction todo arbitrary: pre effs)
  case Nil
  then show ?case by simp
next
  case (Cons p todo)
  obtain k r where p: "p = (k, r)" by (cases p)
  from Cons.prems p have notin: "k \<notin> fst ` set pre" "k \<notin> fst ` set todo"
    by auto
  show ?case
  proof (cases "streamer r = s")
    case True
    from Cons.prems p have "distinct (map fst (pre @ todo))" by simp
    from Cons.IH[OF this] True notin show ?thesis
      by (simp add: p map_delete_middle)
  next
    case False
    let ?r' = "disconnect_room s r"
    from Cons.prems p have d: "distinct (map fst ((pre @ [(k, ?r')]) @ todo))" by simp
    have table: "(if set_has (viewers r) s
                  then map_set (pre @ (k, r) # todo) k (r\<lparr>viewers := set_delete (viewers r) s\<rparr>)
                  else pre @ (k, r) # todo) = (pre @ [(k, ?r')]) @ todo"
      using notin by (simp add: disconnect_room_def map_set_middle)
    from Cons.IH[OF d, of "if set_has (viewers r) s
        then effs @ [Emit s (streamer r) (ViewerLeft s)] else effs"] False table
    show ?thesis
      by (auto simp: p split: if_splits)
  qed
qed

lemma disconnect_table:
  "distinct (map fst (rooms st)) \<Longrightarrow>
     rooms (fst (disconnect s st))
       = map (\<lambda>p. (fst p, disconnect_room s (snd p)))
             (filter (\<lambda>p. streamer (snd p) \<noteq> s) (rooms st))"
  using disconnect_loop_table[of "[]" "rooms st" s "[]"] by (simp add: disconnect_rooms)

lemma distinct_set_add: "distinct xs \<Longrightarrow> distinct (set_add xs x)"
  by (simp add: set_add_def)

lemma distinct_disconnect_room: "distinct (viewers r) \<Longrightarrow> distinct (viewers (disconnect_room s r))"
  by (simp add: disconnect_room_def set_delete_def)

lemma disconnect_room_viewers: "set (viewers (disconnect_room s r)) = set (viewers r) - {s}"
  by (auto simp: disconnect_room_def set_delete_def set_has_def)

lemma registry_wf_connection: "registry_wf st \<Longrightarrow> registry_wf (connection s st)"
  by (simp add: registry_wf_def connection_def)

lemma registry_wf_create_room:
  "registry_wf st \<Longrightarrow> registry_wf (fst (create_room isDevelopment rnd s st))"
  by (simp add: registry_wf_def create_room_def socket_join_def Let_def distinct_map_set
      list_all_map_set)

lemma registry_wf_join_room:
  assumes "registry_wf st"
  shows "registry_wf (fst (join_room s roomId st))"
proof (cases "map_get (rooms st) roomId")
  case None
  with assms show ?thesis by (simp add: join_room_def)
next
  case (Some room)
  with assms have "distinct (viewers room)" by (rule registry_wf_viewers)
  with assms Some show ?thesis
    by (simp add: registry_wf_def join_room_def socket_join_def Let_def distinct_map_set
        list_all_map_set distinct_set_add)
qed

lemma registry_wf_disconnect:
  assumes "registry_wf st"
  shows "registry_wf (fst (disconnect s st))"
proof -
  from assms have d: "distinct (map fst (rooms st))"
    and v: "\<forall>p \<in> set (rooms st). distinct (viewers (snd p))"
    by (simp_all add: registry_wf_def list_all_iff)
  have "map fst (rooms (fst (disconnect s st)))
          = map fst (filter (\<lambda>p. streamer (snd p) \<noteq> s) (rooms st))"
    by (simp add: disconnect_table[OF d] comp_def)
  with d have "distinct (map fst (rooms (fst (disconnect s st))))"
    by (simp add: distinct_map_filter)
  moreover from v have "\<forall>p \<in> set (rooms (fst (disconnect s st))). distinct (viewers (snd p))"
    by (auto simp: disconnect_table[OF d] distinct_disconnect_room)
  ultimately show ?thesis
    by (simp add: registry_wf_def list_all_iff)
qed

lemma viewers_joined_connection: "viewers_joined st \<Longrightarrow> viewers_joined (connection s st)"
  by (auto simp: viewers_joined_def connection_def list_all_iff)

lemma viewers_joined_create_room:
  "viewers_joined st \<Longrightarrow> viewers_joined (fst (create_room isDevelopment rnd s st))"
  by (auto simp: viewers_joined_def create_room_def socket_join_def Let_def list_all_iff
      dest!: map_set_entries)

lemma viewers_joined_join_room:
  assumes "viewers_joined st"
  shows "viewers_joined (fst (join_room s roomId st))"
proof (cases "map_get (rooms st) roomId")
  case None
  with assms show ?thesis by (simp add: join_room_def)
next
  case (Some room)
  then have "(roomId, room) \<in> set (rooms st)" by (rule map_get_in_set)
  with assms have "\<forall>v \<in> set (viewers room). v \<in> adapter st roomId"
    by (auto simp: viewers_joined_def list_all_iff)
  with assms Some show ?thesis
    by (auto simp: viewers_joined_def join_room_def socket_join_def Let_def list_all_iff
        set_add_def dest!: map_set_entries)
qed

lemma viewers_joined_disconnect:
  assumes "registry_wf st" and "viewers_joined st"
  shows "viewers_joined (fst (disconnect s st))"
proof -
  from assms(1) have d: "distinct (map fst (rooms st))"
    by (simp add: registry_wf_def)
  from assms(2) show ?thesis
    by (auto simp: viewers_joined_def list_all_iff disconnect_table[OF d] disconnect_adapter
        disconnect_room_viewers)
qed

lemma handle_keeps_wf:
  "registry_wf st \<and> viewers_joined st \<Longrightarrow>
     registry_wf (handle req st) \<and> viewers_joined (handle req st)"
  by (cases req)
     (simp_all add: registry_wf_connection registry_wf_create_room registry_wf_join_room
        registry_wf_disconnect viewers_joined_connection viewers_joined_create_room
        viewers_joined_join_room viewers_joined_disconnect)

lemma fold_handle_keeps_wf:
  "registry_wf st \<and> viewers_joined st \<Longrightarrow>
     registry_wf (fold handle reqs st) \<and> viewers_joined (fold handle reqs st)"
  by (induction reqs arbitrary: st) (simp_all add: handle_keeps_wf)

lemma serve_wf: "registry_wf (serve reqs) \<and> viewers_joined (serve reqs)"
  unfolding serve_def
  by (rule fold_handle_keeps_wf) (simp add: registry_wf_def viewers_joined_def server0_def)

section \<open>Properties of the WebRTC hook\<close>

lemma list_ex_eq_mem: "list_ex (\<lambda>x. f x = c) xs = (c \<in> f ` set xs)"
  by (induction xs) auto

lemma session_states_handler [simp]:
  "session_states (forViewer_onconnectionstatechange pc h) = session_states h"
  by (simp add: forViewer_onconnectionstatechange_def session_states_def Let_def)

lemma forViewer_onconnectionstatechange_aggregate:
  assumes "isStreamer h"
  shows "connectionState (forViewer_onconnectionstatechange pc h) = spec_aggregate (session_states h)"
    and "isConnected (forViewer_onconnectionstatechange pc h)
           = (spec_aggregate (session_states h) = Connected)"
  using assms
  by (auto simp: forViewer_onconnectionstatechange_def spec_aggregate_def session_states_def
      list_ex_eq_mem Let_def image_image)

lemma connectionstatechange_aggregate:
  assumes "isStreamer h" and "onconnectionstatechange (heap h pc) = Some (ForViewer viewerId)"
  shows "connectionState (connectionstatechange pc cs h)
           = spec_aggregate (session_states (connectionstatechange pc cs h))"
  using assms
  by (simp add: connectionstatechange_def Let_def forViewer_onconnectionstatechange_aggregate)

lemma two_viewers_fields:
  "isStreamer two_viewers"
  "connectionState two_viewers = Connected"
  "peerConnections two_viewers = [(''v1'', 0), (''v2'', 1)]"
  "pc_connectionState (heap two_viewers 0) = Disconnected"
  "pc_connectionState (heap two_viewers 1) = Connected"
  "localStream two_viewers = Some camera"
  "peerConnection two_viewers = None"
  "socket two_viewers"
  "nextPc two_viewers = 2"
  by (simp_all add: two_viewers_def initial_hook_def viewer_session_def new_pc_def)

text \<open>
  Claim C1 at streamer sessions \<open>{v1: disconnected, v2: connected}\<close>, when \<open>v2\<close>
  leaves: the one session left is \<open>disconnected\<close>, so the aggregate of the
  specification is \<open>disconnected\<close>, and \<open>cleanupViewerConnection\<close> publishes
  \<open>connecting\<close>. The \<open>onconnectionstatechange\<close> handler follows the specification
  (\<open>connectionstatechange_aggregate\<close>); the recomputation in
  \<open>cleanupViewerConnection\<close> lacks its \<open>disconnected\<close> branch.
\<close>

theorem cleanupViewerConnection_reports_connecting:
  "connectionState two_viewers = Connected
   \<and> session_states (cleanupViewerConnection ''v2'' two_viewers) = [Disconnected]
   \<and> connectionState (cleanupViewerConnection ''v2'' two_viewers) = Connecting
   \<and> spec_aggregate (session_states (cleanupViewerConnection ''v2'' two_viewers)) = Disconnected"
  by (simp add: two_viewers_fields cleanupViewerConnection_def session_states_def
      spec_aggregate_def map_get_def map_delete_def map_values_def pc_close_def Let_def)

subsection \<open>createAnswer\<close>

lemma set_has_set_delete [simp]: "\<not> set_has (set_delete xs x) x"
  by (simp add: set_has_def set_delete_def)

lemma set_has_set_add [simp]: "set_has (set_add xs x) x"
  by (simp add: set_has_def set_add_def)

lemma set_delete_set_add: "\<not> set_has xs x \<Longrightarrow> set_delete (set_add xs x) x = xs"
  by (auto simp: set_has_def set_delete_def set_add_def filter_id_conv)

lemma guard_finally [simp]:
  "\<not> set_has (processingOffers (createAnswer_finally s h)) s"
  by (simp add: createAnswer_finally_def)

lemma guard_failed [simp]:
  "\<not> set_has (processingOffers (createAnswer_failed s err h)) s"
  by (simp add: createAnswer_failed_def)

lemma createAnswer_start_guarded:
  "set_has (processingOffers h) s \<Longrightarrow> createAnswer_start offer s h = (h, [], None)"
  by (simp add: createAnswer_start_def)

lemma createAnswer_guarded:
  "set_has (processingOffers h) s \<Longrightarrow> createAnswer offer s r1 r2 r3 h = (h, [])"
  by (simp add: createAnswer_def createAnswer_start_guarded)

lemma createAnswer_start_waiting:
  "createAnswer_start offer s h = (h1, acts, Some pc) \<Longrightarrow> set_has (processingOffers h1) s"
  by (auto simp: createAnswer_start_def Let_def split: if_splits option.splits)

lemma createAnswer_start_done:
  "\<not> set_has (processingOffers h) s \<Longrightarrow> createAnswer_start offer s h = (h1, acts, None) \<Longrightarrow>
     \<not> set_has (processingOffers h1) s"
  by (auto simp: createAnswer_start_def Let_def split: if_splits option.splits)

lemma createAnswer_remote_set_done:
  "createAnswer_remote_set offer s pc0 r1 h = (h1, acts, None) \<Longrightarrow>
     \<not> set_has (processingOffers h1) s"
  by (auto simp: createAnswer_remote_set_def Let_def split: outcome.splits option.splits)

lemma createAnswer_created_done:
  "createAnswer_created s r2 h = (h1, acts, None) \<Longrightarrow> \<not> set_has (processingOffers h1) s"
  by (auto simp: createAnswer_created_def split: outcome.splits option.splits)

lemma createAnswer_described_done:
  "\<not> set_has (processingOffers (fst (createAnswer_described s pc2 answer r3 h))) s"
  by (auto simp: createAnswer_described_def Let_def split: outcome.splits)

lemma createAnswer_cases:
  obtains
    (stopped) h1 acts1 where
      "createAnswer_start offer s h = (h1, acts1, None)"
      "createAnswer offer s r1 r2 r3 h = (h1, acts1)"
  | (remote_failed) h1 acts1 pc0 h2 acts2 where
      "createAnswer_start offer s h = (h1, acts1, Some pc0)"
      "createAnswer_remote_set offer s pc0 r1 h1 = (h2, acts2, None)"
      "createAnswer offer s r1 r2 r3 h = (h2, acts1 @ acts2)"
  | (create_failed) h1 acts1 pc0 h2 acts2 pc1 h3 acts3 where
      "createAnswer_start offer s h = (h1, acts1, Some pc0)"
      "createAnswer_remote_set offer s pc0 r1 h1 = (h2, acts2, Some pc1)"
      "createAnswer_created s r2 h2 = (h3, acts3, None)"
      "createAnswer offer s r1 r2 r3 h = (h3, acts1 @ acts2 @ acts3)"
  | (described) h1 acts1 pc0 h2 acts2 pc1 h3 acts3 pc2 answer where
      "createAnswer_start offer s h = (h1, acts1, Some pc0)"
      "createAnswer_remote_set offer s pc0 r1 h1 = (h2, acts2, Some pc1)"
      "createAnswer_created s r2 h2 = (h3, acts3, Some (pc2, answer))"
      "createAnswer offer s r1 r2 r3 h =
         (fst (createAnswer_described s pc2 answer r3 h3),
          acts1 @ acts2 @ acts3 @ snd (createAnswer_described s pc2 answer r3 h3))"
proof (cases "createAnswer_start offer s h")
  case a: (fields h1 acts1 w1)
  show ?thesis
  proof (cases w1)
    case None
    with a show ?thesis by (intro stopped[of h1 acts1]) (simp_all add: createAnswer_def)
  next
    case w1: (Some pc0)
    show ?thesis
    proof (cases "createAnswer_remote_set offer s pc0 r1 h1")
      case b: (fields h2 acts2 w2)
      show ?thesis
      proof (cases w2)
        case None
        with a w1 b show ?thesis
          by (intro remote_failed[of h1 acts1 pc0 h2 acts2]) (simp_all add: createAnswer_def)
      next
        case w2: (Some pc1)
        show ?thesis
        proof (cases "createAnswer_created s r2 h2")
          case c: (fields h3 acts3 w3)
          show ?thesis
          proof (cases w3)
            case None
            with a w1 b w2 c show ?thesis
              by (intro create_failed[of h1 acts1 pc0 h2 acts2 pc1 h3 acts3])
                 (simp_all add: createAnswer_def)
          next
            case w3: (Some w)
            obtain pc2 answer where w: "w = (pc2, answer)" by (cases w)
            with a w1 b w2 c w3 show ?thesis
              by (intro described[of h1 acts1 pc0 h2 acts2 pc1 h3 acts3 pc2 answer])
                 (simp_all add: createAnswer_def case_prod_beta)
          qed
        qed
      qed
    qed
  qed
qed

lemma createAnswer_releases:
  assumes "\<not> set_has (processingOffers h) s"
  shows "\<not> set_has (processingOffers (fst (createAnswer offer s r1 r2 r3 h))) s"
proof (cases rule: createAnswer_cases[of offer s h r1 r2 r3])
  case stopped
  with assms show ?thesis by (simp add: createAnswer_start_done)
next
  case remote_failed
  then show ?thesis by (simp add: createAnswer_remote_set_done)
next
  case create_failed
  then show ?thesis by (simp add: createAnswer_created_done)
next
  case described
  then show ?thesis by (simp add: createAnswer_described_done)
qed

text \<open>
  Claim C2. A \<open>createAnswer\<close> for a streamer that is in the guard set changes nothing
  and takes no step: no remote description is applied, no answer is sent. A call that
  starts with the streamer outside the guard set ends with it outside, however the
  three promises settle; while such a call waits on its first promise the guard holds the
  streamer, so a second call for it is dropped; and each later part of the call that ends
  the call, by success or by exception, leaves the streamer outside the guard set,
  whatever ran in between.
\<close>

theorem createAnswer_guard:
  "(set_has (processingOffers h) s \<longrightarrow> createAnswer offer s r1 r2 r3 h = (h, []))
   \<and> (\<not> set_has (processingOffers h) s \<longrightarrow>
        \<not> set_has (processingOffers (fst (createAnswer offer s r1 r2 r3 h))) s)
   \<and> (\<forall>h1 acts pc0. createAnswer_start offer s h = (h1, acts, Some pc0) \<longrightarrow>
        set_has (processingOffers h1) s \<and> createAnswer offer' s r1' r2' r3' h1 = (h1, []))
   \<and> (\<forall>h1 acts. createAnswer_remote_set offer s pc0 r1 h = (h1, acts, None) \<longrightarrow>
        \<not> set_has (processingOffers h1) s)
   \<and> (\<forall>h1 acts. createAnswer_created s r2 h = (h1, acts, None) \<longrightarrow>
        \<not> set_has (processingOffers h1) s)
   \<and> \<not> set_has (processingOffers (fst (createAnswer_described s pc2 answer r3 h))) s"
  by (auto simp: createAnswer_guarded createAnswer_releases createAnswer_described_done
      dest: createAnswer_start_waiting createAnswer_remote_set_done createAnswer_created_done)

lemma createAnswer_start_initial:
  "createAnswer_start ''offer1'' ''s'' (initial_hook True False) =
     ((initial_hook True False)\<lparr>
         peerConnection := Some 0, processingOffers := [''s''],
         heap := (\<lambda>pc. new_pc)(0 := streamer_session ''s'' Stable), nextPc := 1\<rparr>,
      [SetRemoteDescription 0 ''offer1''], Some 0)"
  by (simp add: createAnswer_start_def createAnswer_prepare_def initial_hook_def
      streamer_session_def new_pc_def set_has_def set_add_def Let_def)

theorem createAnswer_guard_witness:
  "set_has (processingOffers viewer_waiting) ''s''
   \<and> createAnswer ''offer2'' ''s'' (Resolved ()) (Resolved ''answer2'') (Resolved ()) viewer_waiting
       = (viewer_waiting, [])
   \<and> \<not> set_has (processingOffers (initial_hook True False)) ''s''
   \<and> \<not> set_has (processingOffers (fst (createAnswer ''offer1'' ''s'' (Resolved ()) (Resolved ''answer1'')
                                          (Resolved ()) (initial_hook True False)))) ''s''
   \<and> set_has (processingOffers (fst (createAnswer_start ''offer1'' ''s'' (initial_hook True False)))) ''s''"
proof -
  have a: "set_has (processingOffers viewer_waiting) ''s''"
    by (simp add: viewer_waiting_def set_has_def)
  have b: "\<not> set_has (processingOffers (initial_hook True False)) ''s''"
    by (simp add: initial_hook_def set_has_def)
  note c = createAnswer_start_initial
  from createAnswer_guard[of viewer_waiting "''s''" "''offer2''" "Resolved ()"
      "Resolved ''answer2''" "Resolved ()"] a
  have 1: "createAnswer ''offer2'' ''s'' (Resolved ()) (Resolved ''answer2'') (Resolved ())
             viewer_waiting = (viewer_waiting, [])"
    by blast
  from createAnswer_guard[of "initial_hook True False" "''s''" "''offer1''" "Resolved ()"
      "Resolved ''answer1''" "Resolved ()"] b c
  have 2: "\<not> set_has (processingOffers (fst (createAnswer ''offer1'' ''s'' (Resolved ())
             (Resolved ''answer1'') (Resolved ()) (initial_hook True False)))) ''s''"
    and 3: "set_has (processingOffers (fst (createAnswer_start ''offer1'' ''s''
             (initial_hook True False)))) ''s''"
    by auto
  from a b 1 2 3 show ?thesis by blast
qed


subsection \<open>The stable-only rule\<close>

lemma createAnswer_prepare_same_or_stable:
  "createAnswer_prepare s h = h
   \<or> (\<exists>pc. peerConnection (createAnswer_prepare s h) = Some pc
            \<and> pc_signalingState (heap (createAnswer_prepare s h) pc) = Stable)"
  by (auto simp: createAnswer_prepare_def new_pc_def Let_def split: option.splits)

lemma hook_guard_restored:
  "\<not> set_has (processingOffers h) s \<Longrightarrow>
     createAnswer_finally s (h\<lparr>processingOffers := set_add (processingOffers h) s\<rparr>) = h"
  by (simp add: createAnswer_finally_def set_delete_set_add)

lemma createAnswer_start_unstable:
  assumes "peerConnection (createAnswer_prepare s h) = Some pc"
    and "pc_signalingState (heap (createAnswer_prepare s h) pc) \<noteq> Stable"
  shows "createAnswer_start offer s h = (h, [], None)"
proof (cases "set_has (processingOffers h) s")
  case True
  then show ?thesis by (rule createAnswer_start_guarded)
next
  case False
  from assms createAnswer_prepare_same_or_stable[of s h]
  have same: "createAnswer_prepare s h = h" by auto
  with assms False show ?thesis
    by (simp add: createAnswer_start_def Let_def hook_guard_restored)
qed

lemma createAnswer_start_applies:
  assumes "SetRemoteDescription pc offer' \<in> set (fst (snd (createAnswer_start offer s h)))"
  shows "peerConnection (createAnswer_prepare s h) = Some pc
       \<and> pc_signalingState (heap (createAnswer_prepare s h) pc) = Stable \<and> offer' = offer"
  using assms
  by (auto simp: createAnswer_start_def Let_def split: if_splits option.splits)

lemma createAnswer_remote_set_actions:
  "SetRemoteDescription pc offer' \<notin> set (fst (snd (createAnswer_remote_set offer s pc0 r1 h)))"
  by (auto simp: createAnswer_remote_set_def Let_def split: outcome.splits option.splits)

lemma createAnswer_created_actions:
  "SetRemoteDescription pc offer' \<notin> set (fst (snd (createAnswer_created s r2 h)))"
  by (auto simp: createAnswer_created_def split: outcome.splits option.splits)

lemma createAnswer_described_actions:
  "SetRemoteDescription pc offer' \<notin> set (snd (createAnswer_described s pc2 answer r3 h))"
  by (auto simp: createAnswer_described_def Let_def split: outcome.splits)

lemma createAnswer_applies_in_start:
  assumes "SetRemoteDescription pc offer' \<in> set (snd (createAnswer offer s r1 r2 r3 h))"
  shows "SetRemoteDescription pc offer' \<in> set (fst (snd (createAnswer_start offer s h)))"
proof (cases rule: createAnswer_cases[of offer s h r1 r2 r3])
  case stopped
  with assms show ?thesis by simp
next
  case (remote_failed h1 acts1 pc0 h2 acts2)
  with assms createAnswer_remote_set_actions[of pc offer' offer s pc0 r1 h1]
  show ?thesis by simp
next
  case (create_failed h1 acts1 pc0 h2 acts2 pc1 h3 acts3)
  with assms createAnswer_remote_set_actions[of pc offer' offer s pc0 r1 h1]
    createAnswer_created_actions[of pc offer' s r2 h2]
  show ?thesis by simp
next
  case (described h1 acts1 pc0 h2 acts2 pc1 h3 acts3 pc2 answer)
  with assms createAnswer_remote_set_actions[of pc offer' offer s pc0 r1 h1]
    createAnswer_created_actions[of pc offer' s r2 h2]
    createAnswer_described_actions[of pc offer' s pc2 answer r3 h3]
  show ?thesis by simp
qed

text \<open>
  Claim C3. \<open>createAnswer\<close> calls \<open>setRemoteDescription\<close> only with the offer it
  was given, on the current connection, and only when that connection's
  \<open>signalingState\<close> is \<open>stable\<close> at the check. When it is not, the call returns the
  hook's state exactly as it found it and takes no step: no offer applied, no answer
  sent, no error recorded.
\<close>

theorem createAnswer_stable_only:
  "(SetRemoteDescription pc offer' \<in> set (snd (createAnswer offer s r1 r2 r3 h)) \<longrightarrow>
      peerConnection (createAnswer_prepare s h) = Some pc
      \<and> pc_signalingState (heap (createAnswer_prepare s h) pc) = Stable \<and> offer' = offer)
   \<and> (peerConnection (createAnswer_prepare s h) = Some pc
       \<and> pc_signalingState (heap (createAnswer_prepare s h) pc) \<noteq> Stable \<longrightarrow>
      createAnswer offer s r1 r2 r3 h = (h, []))"
proof -
  have applied: "peerConnection (createAnswer_prepare s h) = Some pc
      \<and> pc_signalingState (heap (createAnswer_prepare s h) pc) = Stable \<and> offer' = offer"
    if "SetRemoteDescription pc offer' \<in> set (snd (createAnswer offer s r1 r2 r3 h))"
  proof -
    from that
    have "SetRemoteDescription pc offer' \<in> set (fst (snd (createAnswer_start offer s h)))"
      by (rule createAnswer_applies_in_start)
    then show ?thesis
      by (rule createAnswer_start_applies)
  qed
  have dropped: "createAnswer offer s r1 r2 r3 h = (h, [])"
    if "peerConnection (createAnswer_prepare s h) = Some pc
       \<and> pc_signalingState (heap (createAnswer_prepare s h) pc) \<noteq> Stable"
  proof -
    from that have "createAnswer_start offer s h = (h, [], None)"
      by (auto intro: createAnswer_start_unstable)
    then show ?thesis
      by (simp add: createAnswer_def)
  qed
  from applied dropped show ?thesis
    by blast
qed

lemma viewer_waiting_prepare:
  "createAnswer_prepare ''s2'' viewer_waiting = viewer_waiting"
  by (simp add: createAnswer_prepare_def viewer_waiting_def initial_hook_def
      streamer_session_def new_pc_def Let_def)

lemma createAnswer_initial_actions:
  "snd (createAnswer ''offer1'' ''s'' (Resolved ()) (Resolved ''answer1'') (Resolved ())
          (initial_hook True False))
   = [SetRemoteDescription 0 ''offer1'', CreateAnswer 0, SetLocalDescription 0 ''answer1'',
      SocketEmit (EmitAnswer ''answer1'' ''s'')]"
  by (simp add: createAnswer_def createAnswer_start_initial)
     (simp add: createAnswer_remote_set_def createAnswer_created_def
        createAnswer_described_def initial_hook_def Let_def)

theorem createAnswer_stable_only_witness:
  "peerConnection (createAnswer_prepare ''s2'' viewer_waiting) = Some 0
   \<and> pc_signalingState (heap (createAnswer_prepare ''s2'' viewer_waiting) 0) = HaveRemoteOffer
   \<and> createAnswer ''offer2'' ''s2'' (Resolved ()) (Resolved ''answer2'') (Resolved ()) viewer_waiting
       = (viewer_waiting, [])
   \<and> SetRemoteDescription 0 ''offer1''
       \<in> set (snd (createAnswer ''offer1'' ''s'' (Resolved ()) (Resolved ''answer1'') (Resolved ())
                     (initial_hook True False)))
   \<and> pc_signalingState (heap (createAnswer_prepare ''s'' (initial_hook True False)) 0) = Stable"
proof -
  have a: "peerConnection (createAnswer_prepare ''s2'' viewer_waiting) = Some 0"
    by (simp add: viewer_waiting_prepare) (simp add: viewer_waiting_def)
  have b: "pc_signalingState (heap (createAnswer_prepare ''s2'' viewer_waiting) 0) = HaveRemoteOffer"
    by (simp add: viewer_waiting_prepare) (simp add: viewer_waiting_def streamer_session_def)
  have c: "SetRemoteDescription 0 ''offer1''
       \<in> set (snd (createAnswer ''offer1'' ''s'' (Resolved ()) (Resolved ''answer1'') (Resolved ())
                     (initial_hook True False)))"
    by (simp add: createAnswer_initial_actions)
  from createAnswer_stable_only[of 0 "''offer2''" "''offer2''" "''s2''" "Resolved ()"
      "Resolved ''answer2''" "Resolved ()" viewer_waiting] a b
  have 1: "createAnswer ''offer2'' ''s2'' (Resolved ()) (Resolved ''answer2'') (Resolved ())
             viewer_waiting = (viewer_waiting, [])"
    by simp
  from createAnswer_stable_only[of 0 "''offer1''" "''offer1''" "''s''" "Resolved ()"
      "Resolved ''answer1''" "Resolved ()" "initial_hook True False"] c
  have 2: "pc_signalingState (heap (createAnswer_prepare ''s'' (initial_hook True False)) 0) = Stable"
    by blast
  from a b c 1 2 show ?thesis by blast
qed

subsection \<open>createOffer without a local stream\<close>

lemma createOffer_start_no_stream:
  "localStream h = None \<Longrightarrow> isStreamer h \<Longrightarrow>
     createOffer_start v h =
       (if socket h then (h\<lparr>error := Some ''Local stream not ready''\<rparr>, [], None)
        else (h, [], None))"
  by (simp add: createOffer_start_def)

text \<open>
  Claim C8, as the code has it. A \<open>createOffer\<close> in the streamer role with no local
  stream creates no connection and takes no step, so no offer is sent; when the hook has
  a socket it records the error \<open>Local stream not ready\<close> and changes nothing else;
  when the hook's socket is \<open>null\<close> it returns before that check and changes nothing.
\<close>

theorem createOffer_without_local_stream:
  assumes "isStreamer h" and "localStream h = None"
  shows "(socket h \<longrightarrow>
            createOffer v r1 r2 h = (h\<lparr>error := Some ''Local stream not ready''\<rparr>, []))
       \<and> (\<not> socket h \<longrightarrow> createOffer v r1 r2 h = (h, []))
       \<and> peerConnections (fst (createOffer v r1 r2 h)) = peerConnections h
       \<and> heap (fst (createOffer v r1 r2 h)) = heap h
       \<and> nextPc (fst (createOffer v r1 r2 h)) = nextPc h
       \<and> snd (createOffer v r1 r2 h) = []"
  using assms by (simp add: createOffer_def createOffer_start_no_stream)

theorem createOffer_without_local_stream_witness:
  "isStreamer (initial_hook True True) \<and> localStream (initial_hook True True) = None
   \<and> socket (initial_hook True True)
   \<and> createOffer ''v1'' (Resolved ''offer1'') (Resolved ()) (initial_hook True True)
       = ((initial_hook True True)\<lparr>error := Some ''Local stream not ready''\<rparr>, [])"
proof -
  have a: "isStreamer (initial_hook True True)" and b: "localStream (initial_hook True True) = None"
    and c: "socket (initial_hook True True)"
    by (simp_all add: initial_hook_def)
  from createOffer_without_local_stream[OF a b, of "''v1''" "Resolved ''offer1''" "Resolved ()"] a b c
  show ?thesis by blast
qed

text \<open>
  Claim C8 as stated fails for a streamer hook whose socket is \<open>null\<close>: the call
  returns at \<open>if (!socket || !isStreamer) return\<close> and records no error.
\<close>

theorem createOffer_silent_without_socket_counterexample:
  "isStreamer (initial_hook False True) \<and> localStream (initial_hook False True) = None
   \<and> error (fst (createOffer ''v1'' (Resolved ''offer1'') (Resolved ()) (initial_hook False True)))
       = None"
  by (simp add: createOffer_def createOffer_start_def initial_hook_def)


subsection \<open>cleanup\<close>

lemma close_all_other: "pc \<notin> set pcs \<Longrightarrow> close_all hp pcs pc = hp pc"
  by (induction pcs arbitrary: hp) auto

lemma close_all_onicecandidate [simp]:
  "onicecandidate (close_all hp pcs pc) = onicecandidate (hp pc)"
  by (induction pcs arbitrary: hp) (auto simp: pc_close_def)

lemma close_all_ontrack [simp]: "ontrack (close_all hp pcs pc) = ontrack (hp pc)"
  by (induction pcs arbitrary: hp) (auto simp: pc_close_def)

lemma close_all_unregistered:
  "onconnectionstatechange (hp pc) = None \<Longrightarrow> onconnectionstatechange (close_all hp pcs pc) = None"
  by (induction pcs arbitrary: hp) (auto simp: pc_close_def)

lemma close_all_closed:
  "pc_connectionState (hp pc) = Closed \<Longrightarrow> pc_connectionState (close_all hp pcs pc) = Closed"
  by (induction pcs arbitrary: hp) (auto simp: pc_close_def)

lemma close_all_member:
  "pc \<in> set pcs \<Longrightarrow>
     pc_connectionState (close_all hp pcs pc) = Closed
     \<and> onconnectionstatechange (close_all hp pcs pc) = None"
proof (induction pcs arbitrary: hp)
  case Nil
  then show ?case by simp
next
  case (Cons x pcs)
  show ?case
  proof (cases "x = pc")
    case True
    then show ?thesis
      by (simp add: close_all_closed close_all_unregistered pc_close_def)
  next
    case False
    with Cons.prems have "pc \<in> set pcs" by simp
    from Cons.IH[OF this] show ?thesis by simp
  qed
qed

lemma cleanup_fields [simp]:
  "localStream (cleanup h) = None"
  "peerConnection (cleanup h) = None"
  "peerConnections (cleanup h) = []"
  "processingOffers (cleanup h) = []"
  "remoteStream (cleanup h) = None"
  "isConnected (cleanup h) = False"
  "connectionState (cleanup h) = New"
  "error (cleanup h) = None"
  by (simp_all add: cleanup_def Let_def split: option.splits)

lemma cleanup_stopped:
  "localStream h = Some stream \<Longrightarrow> fst ` set stream \<subseteq> stopped (cleanup h)"
  by (simp add: cleanup_def Let_def split: option.splits)

lemma cleanup_heap:
  "heap (cleanup h) =
     close_all
       (case peerConnection h of
          Some pc \<Rightarrow> (heap h)(pc := pc_close ((heap h pc)\<lparr>onconnectionstatechange := None,
                         onicecandidate := None, ontrack := None\<rparr>))
        | None \<Rightarrow> heap h)
       (map_values (peerConnections h))"
  by (simp add: cleanup_def Let_def split: option.splits)

lemma cleanup_viewer_connection:
  assumes "peerConnection h = Some pc"
  shows "onconnectionstatechange (heap (cleanup h) pc) = None"
    and "onicecandidate (heap (cleanup h) pc) = None"
    and "ontrack (heap (cleanup h) pc) = None"
    and "pc_connectionState (heap (cleanup h) pc) = Closed"
  using assms
  by (simp_all add: cleanup_heap close_all_unregistered close_all_closed pc_close_def)

lemma cleanup_viewer_connections:
  assumes "pc \<in> set (map_values (peerConnections h))"
  shows "pc_connectionState (heap (cleanup h) pc) = Closed
       \<and> onconnectionstatechange (heap (cleanup h) pc) = None"
  using assms by (simp add: cleanup_heap close_all_member)

lemma cleanup_idempotent: "cleanup (cleanup h) = cleanup h"
proof -
  have "cleanup (cleanup h) =
          (cleanup h)\<lparr>heap := heap (cleanup h), peerConnections := [], processingOffers := [],
                      remoteStream := None, isConnected := False, connectionState := New,
                      error := None\<rparr>"
    by (subst (1) cleanup_def) (simp add: Let_def map_values_def)
  also have "\<dots> = cleanup h"
    by (rule hook.equality) simp_all
  finally show ?thesis .
qed

text \<open>
  Claim C10. From any state of the hook, \<open>cleanup\<close> leaves the local stream \<open>null\<close>
  with every track it had stopped; the viewer-side connection \<open>null\<close>, the connection
  it held closed with its three callbacks unregistered; the streamer-side table empty,
  every connection it held closed with its state callback unregistered; the guard set
  empty, the remote stream \<open>null\<close>, \<open>isConnected\<close> false, \<open>connectionState\<close>
  \<open>new\<close> and \<open>error\<close> \<open>null\<close>. Running it twice is running it once.
\<close>

theorem cleanup_postcondition:
  "localStream (cleanup h) = None
   \<and> (\<forall>stream. localStream h = Some stream \<longrightarrow> fst ` set stream \<subseteq> stopped (cleanup h))
   \<and> peerConnection (cleanup h) = None
   \<and> (\<forall>pc. peerConnection h = Some pc \<longrightarrow>
         onconnectionstatechange (heap (cleanup h) pc) = None
         \<and> onicecandidate (heap (cleanup h) pc) = None
         \<and> ontrack (heap (cleanup h) pc) = None
         \<and> pc_connectionState (heap (cleanup h) pc) = Closed)
   \<and> peerConnections (cleanup h) = []
   \<and> (\<forall>pc \<in> set (map_values (peerConnections h)).
         pc_connectionState (heap (cleanup h) pc) = Closed
         \<and> onconnectionstatechange (heap (cleanup h) pc) = None)
   \<and> processingOffers (cleanup h) = []
   \<and> remoteStream (cleanup h) = None
   \<and> \<not> isConnected (cleanup h)
   \<and> connectionState (cleanup h) = New
   \<and> error (cleanup h) = None
   \<and> cleanup (cleanup h) = cleanup h"
  by (simp add: cleanup_stopped cleanup_viewer_connection cleanup_viewer_connections
      cleanup_idempotent)

theorem cleanup_postcondition_witness:
  "localStream two_viewers = Some camera
   \<and> fst ` set camera \<subseteq> stopped (cleanup two_viewers)
   \<and> 1 \<in> set (map_values (peerConnections two_viewers))
   \<and> pc_connectionState (heap (cleanup two_viewers) 1) = Closed
   \<and> onconnectionstatechange (heap (cleanup two_viewers) 1) = None
   \<and> peerConnection viewer_playing = Some 0
   \<and> onconnectionstatechange (heap (cleanup viewer_playing) 0) = None
   \<and> onicecandidate (heap (cleanup viewer_playing) 0) = None
   \<and> ontrack (heap (cleanup viewer_playing) 0) = None
   \<and> pc_connectionState (heap (cleanup viewer_playing) 0) = Closed
   \<and> cleanup (cleanup viewer_playing) = cleanup viewer_playing"
proof -
  have a: "localStream two_viewers = Some camera"
    by (simp add: two_viewers_fields)
  have b: "1 \<in> set (map_values (peerConnections two_viewers))"
    by (simp add: two_viewers_fields map_values_def)
  have c: "peerConnection viewer_playing = Some 0"
    by (simp add: viewer_playing_def)
  from cleanup_postcondition[of two_viewers] a b
  have 1: "fst ` set camera \<subseteq> stopped (cleanup two_viewers)
     \<and> pc_connectionState (heap (cleanup two_viewers) 1) = Closed
     \<and> onconnectionstatechange (heap (cleanup two_viewers) 1) = None"
    by blast
  from cleanup_postcondition[of viewer_playing] c
  have 2: "onconnectionstatechange (heap (cleanup viewer_playing) 0) = None
   \<and> onicecandidate (heap (cleanup viewer_playing) 0) = None
   \<and> ontrack (heap (cleanup viewer_playing) 0) = None
   \<and> pc_connectionState (heap (cleanup viewer_playing) 0) = Closed
   \<and> cleanup (cleanup viewer_playing) = cleanup viewer_playing"
    by blast
  from a b c 1 2 show ?thesis by blast
qed


section \<open>Properties of the viewer page\<close>

lemma scheduled_append [simp]: "scheduled (xs @ ys) = scheduled xs @ scheduled ys"
  by (induction xs rule: scheduled.induct) auto

lemma autoRetry_cleanup_count [simp]:
  "retryCountRef (fst (autoRetry_cleanup p)) = retryCountRef p"
  "vp_hook (fst (autoRetry_cleanup p)) = vp_hook p"
  "scheduled (snd (autoRetry_cleanup p)) = []"
  by (simp_all add: autoRetry_cleanup_def split: option.splits)

lemma autoRetry_idle:
  "\<not> shouldRetry (connectionState (vp_hook p)) \<Longrightarrow> autoRetry p = (p, [], False)"
  by (simp add: autoRetry_def)

lemma autoRetry_exhausted:
  "shouldRetry (connectionState (vp_hook p)) \<Longrightarrow> 5 < retryCountRef p + 1 \<Longrightarrow>
     autoRetry p =
       (p\<lparr>retryCountRef := retryCountRef p + 1,
          vp_status := Status ''WebRTC failed after multiple retries''\<rparr>, [], False)"
  by (simp add: autoRetry_def Let_def)

lemma autoRetry_scheduled:
  "shouldRetry (connectionState (vp_hook p)) \<Longrightarrow> retryCountRef p + 1 \<le> 5 \<Longrightarrow>
     retryCountRef (fst (autoRetry p)) = retryCountRef p + 1
     \<and> scheduled (fst (snd (autoRetry p))) = [2000 * (retryCountRef p + 1)]
     \<and> retryTimeoutRef (fst (autoRetry p)) = Some (2000 * (retryCountRef p + 1))"
  by (simp add: autoRetry_def Let_def split: option.splits)

lemma enter_state_published:
  "connectionState (vp_hook (fst (if reg then autoRetry_cleanup
        (p\<lparr>vp_hook := (vp_hook p)\<lparr>connectionState := cs, isConnected := (cs = Connected)\<rparr>\<rparr>)
      else (p\<lparr>vp_hook := (vp_hook p)\<lparr>connectionState := cs, isConnected := (cs = Connected)\<rparr>\<rparr>, [])))) = cs"
  by simp

lemma enter_state_count:
  "retryCountRef (snd (fst (enter_state cs (reg, p))))
     = retryCountRef p + (if shouldRetry cs then 1 else 0)"
proof -
  let ?p0 = "p\<lparr>vp_hook := (vp_hook p)\<lparr>connectionState := cs, isConnected := (cs = Connected)\<rparr>\<rparr>"
  let ?p1 = "fst (if reg then autoRetry_cleanup ?p0 else (?p0, []))"
  have cs: "connectionState (vp_hook ?p1) = cs" and c: "retryCountRef ?p1 = retryCountRef p"
    by simp_all
  have "retryCountRef (fst (autoRetry ?p1)) = retryCountRef p + (if shouldRetry cs then 1 else 0)"
  proof (cases "shouldRetry cs")
    case False
    with cs c show ?thesis by (simp add: autoRetry_idle)
  next
    case True
    show ?thesis
    proof (cases "5 < retryCountRef ?p1 + 1")
      case True
      with \<open>shouldRetry cs\<close> cs c show ?thesis by (simp add: autoRetry_exhausted)
    next
      case False
      then have "retryCountRef ?p1 + 1 \<le> 5" by simp
      with \<open>shouldRetry cs\<close> cs c autoRetry_scheduled[of ?p1] show ?thesis by simp
    qed
  qed
  then show ?thesis
    by (simp add: enter_state_def Let_def case_prod_beta)
qed

lemma enter_state_scheduled:
  "scheduled (snd (enter_state cs (reg, p)))
     = (if shouldRetry cs \<and> retryCountRef p + 1 \<le> 5 then [2000 * (retryCountRef p + 1)] else [])"
proof -
  let ?p0 = "p\<lparr>vp_hook := (vp_hook p)\<lparr>connectionState := cs, isConnected := (cs = Connected)\<rparr>\<rparr>"
  let ?p1 = "fst (if reg then autoRetry_cleanup ?p0 else (?p0, []))"
  have cs: "connectionState (vp_hook ?p1) = cs" and c: "retryCountRef ?p1 = retryCountRef p"
    by simp_all
  have "scheduled (fst (snd (autoRetry ?p1)))
          = (if shouldRetry cs \<and> retryCountRef p + 1 \<le> 5 then [2000 * (retryCountRef p + 1)] else [])"
  proof (cases "shouldRetry cs")
    case False
    with cs c show ?thesis by (simp add: autoRetry_idle)
  next
    case True
    show ?thesis
    proof (cases "5 < retryCountRef ?p1 + 1")
      case True
      with \<open>shouldRetry cs\<close> cs c show ?thesis by (simp add: autoRetry_exhausted)
    next
      case False
      then have "retryCountRef ?p1 + 1 \<le> 5" by simp
      with \<open>shouldRetry cs\<close> cs c autoRetry_scheduled[of ?p1] show ?thesis by simp
    qed
  qed
  then show ?thesis
    by (simp add: enter_state_def Let_def case_prod_beta)
qed

lemma enter_state_exhausted_no_step:
  "shouldRetry cs \<Longrightarrow> 5 < retryCountRef p + 1 \<Longrightarrow> snd (enter_state cs (False, p)) = []"
  by (simp add: enter_state_def Let_def autoRetry_exhausted)

lemma enter_state_exhausted:
  assumes "shouldRetry cs" and "5 < retryCountRef p + 1"
  shows "vp_status (snd (fst (enter_state cs (reg, p))))
           = Status ''WebRTC failed after multiple retries''"
    and "set (snd (enter_state cs (reg, p))) \<subseteq> {ClearTimeout}"
    and "\<not> fst (fst (enter_state cs (reg, p)))"
proof -
  let ?p0 = "p\<lparr>vp_hook := (vp_hook p)\<lparr>connectionState := cs, isConnected := (cs = Connected)\<rparr>\<rparr>"
  let ?p1 = "fst (if reg then autoRetry_cleanup ?p0 else (?p0, []))"
  have cs: "shouldRetry (connectionState (vp_hook ?p1))" and c: "5 < retryCountRef ?p1 + 1"
    using assms by simp_all
  note body = autoRetry_exhausted[OF cs c]
  have cleared: "set (snd (autoRetry_cleanup ?p0)) \<subseteq> {ClearTimeout}"
    by (simp add: autoRetry_cleanup_def split: option.splits)
  show "vp_status (snd (fst (enter_state cs (reg, p))))
           = Status ''WebRTC failed after multiple retries''"
    using body by (simp add: enter_state_def Let_def case_prod_beta)
  show "set (snd (enter_state cs (reg, p))) \<subseteq> {ClearTimeout}"
    using body cleared by (simp add: enter_state_def Let_def case_prod_beta)
  show "\<not> fst (fst (enter_state cs (reg, p)))"
    using body by (simp add: enter_state_def Let_def case_prod_beta)
qed

lemma enter_state_registers:
  assumes "shouldRetry cs" and "retryCountRef p + 1 \<le> 5"
  shows "fst (fst (enter_state cs (reg, p)))"
    and "retryTimeoutRef (snd (fst (enter_state cs (reg, p)))) = Some (2000 * (retryCountRef p + 1))"
proof -
  let ?p0 = "p\<lparr>vp_hook := (vp_hook p)\<lparr>connectionState := cs, isConnected := (cs = Connected)\<rparr>\<rparr>"
  let ?p1 = "fst (if reg then autoRetry_cleanup ?p0 else (?p0, []))"
  have cs: "shouldRetry (connectionState (vp_hook ?p1))" and c: "retryCountRef ?p1 + 1 \<le> 5"
    using assms by simp_all
  have reg: "snd (snd (autoRetry ?p1))"
    using cs c by (simp add: autoRetry_def Let_def)
  show "fst (fst (enter_state cs (reg, p)))"
    using reg by (simp add: enter_state_def Let_def case_prod_beta)
  show "retryTimeoutRef (snd (fst (enter_state cs (reg, p)))) = Some (2000 * (retryCountRef p + 1))"
    using autoRetry_scheduled[OF cs c] by (simp add: enter_state_def Let_def case_prod_beta)
qed

lemma backoff_delays_step:
  "m < N \<Longrightarrow> (2000 * m) # map (\<lambda>n. 2000 * n) [Suc m ..< N] = map (\<lambda>n. 2000 * n) [m ..< N]"
  by (simp add: upt_conv_Cons)

lemma enter_states_scheduled:
  "scheduled (snd (enter_states css (reg, p)))
     = map (\<lambda>n. 2000 * n)
         [Suc (retryCountRef p) ..< Suc (min 5 (retryCountRef p + length (filter shouldRetry css)))]"
proof (induction css arbitrary: reg p)
  case Nil
  then show ?case by simp
next
  case (Cons cs css)
  define c where "c = retryCountRef p"
  define k where "k = length (filter shouldRetry css)"
  obtain reg1 p1 acts1 where step: "enter_state cs (reg, p) = ((reg1, p1), acts1)"
    by (metis surj_pair)
  have c1: "retryCountRef p1 = (if shouldRetry cs then Suc c else c)"
    using enter_state_count[of cs reg p] step by (simp add: c_def)
  have s1: "scheduled acts1 = (if shouldRetry cs \<and> Suc c \<le> 5 then [2000 * Suc c] else [])"
    using enter_state_scheduled[of cs reg p] step by (simp add: c_def)
  have ih: "scheduled (snd (enter_states css (reg1, p1)))
              = map (\<lambda>n. 2000 * n) [Suc (retryCountRef p1) ..< Suc (min 5 (retryCountRef p1 + k))]"
    unfolding k_def by (rule Cons.IH)
  have split: "scheduled (snd (enter_states (cs # css) (reg, p)))
          = scheduled acts1 @ scheduled (snd (enter_states css (reg1, p1)))"
    by (simp add: step case_prod_beta)
  have goal: "scheduled acts1 @ scheduled (snd (enter_states css (reg1, p1)))
     = map (\<lambda>n. 2000 * n) [Suc c ..< Suc (min 5 (c + length (filter shouldRetry (cs # css))))]"
  proof (cases "shouldRetry cs")
    case False
    with c1 s1 ih show ?thesis by (simp add: k_def)
  next
    case retry: True
    show ?thesis
    proof (cases "Suc c \<le> 5")
      case True
      then have less: "Suc c < Suc (min 5 (Suc c + k))" by simp
      have "scheduled acts1 @ scheduled (snd (enter_states css (reg1, p1)))
              = (2000 * Suc c) # map (\<lambda>n. 2000 * n) [Suc (Suc c) ..< Suc (min 5 (Suc c + k))]"
        using retry True c1 s1 ih by simp
      also have "\<dots> = map (\<lambda>n. 2000 * n) [Suc c ..< Suc (min 5 (Suc c + k))]"
        using less by (rule backoff_delays_step)
      also have "Suc c + k = c + length (filter shouldRetry (cs # css))"
        using retry by (simp add: k_def)
      finally show ?thesis .
    next
      case False
      then have "scheduled acts1 = []" and "[Suc (Suc c) ..< Suc (min 5 (Suc c + k))] = []"
        and "[Suc c ..< Suc (min 5 (c + length (filter shouldRetry (cs # css))))] = []"
        using s1 by simp_all
      with retry c1 ih show ?thesis by simp
    qed
  qed
  from split goal show ?case by (simp add: c_def)
qed

lemma joinRoom_count [simp]: "retryCountRef (fst (joinRoom a b p)) = retryCountRef p"
  by (simp add: joinRoom_def vp_setError_def)

lemma handleReconnect_resets: "retryCountRef (fst (handleReconnect a b p)) = 0"
  by (simp add: handleReconnect_def Let_def case_prod_beta vp_setError_def split: option.splits)

lemma retry_timer_fired_resets:
  "retryCountRef (fst (retry_timer_fired False False hasJoinedRoom_seen p)) = 0"
  by (simp add: retry_timer_fired_def handleReconnect_resets)

lemma joinRoom_callback_resets: "retryCountRef (joinRoom_callback Success p) = 0"
  by (simp add: joinRoom_callback_def)

text \<open>
  Claim C5. When the viewer's connection enters \<open>failed\<close> or \<open>disconnected\<close> the
  attempt count goes up by one, whatever the state of the page. If the count is then
  above 5, the run of the effect sets no timer and reports the status
  \<open>WebRTC failed after multiple retries\<close>, whether or not the previous run had left a
  cleanup: the only step that can be taken is that cleanup's \<open>clearTimeout\<close>, and no
  cleanup is returned. Otherwise exactly one timer is set, with delay 2000 times the
  count, and it is the timer the page then holds. A manual reconnect, a successful join
  and a retry timer that fires and reconnects each set the count to zero. The last
  conjunct is about a run in which the connection state changes and nothing else happens
  in between (no timer fires, no manual reconnect, no join response): there the delays
  scheduled are 2000 times \<open>c + 1\<close>, \<open>c + 2\<close>, ..., never beyond attempt 5, where
  \<open>c\<close> is the count at the start. Once a reset has happened the count starts again
  from zero, so the next delay is 2000.
\<close>

theorem auto_retry_backoff:
  "(shouldRetry cs \<longrightarrow>
      retryCountRef (snd (fst (enter_state cs (reg, p)))) = retryCountRef p + 1)
   \<and> (shouldRetry cs \<and> 5 < retryCountRef p + 1 \<longrightarrow>
        scheduled (snd (enter_state cs (reg, p))) = []
        \<and> set (snd (enter_state cs (reg, p))) \<subseteq> {ClearTimeout}
        \<and> snd (enter_state cs (False, p)) = []
        \<and> \<not> fst (fst (enter_state cs (reg, p)))
        \<and> vp_status (snd (fst (enter_state cs (reg, p))))
             = Status ''WebRTC failed after multiple retries'')
   \<and> (shouldRetry cs \<and> retryCountRef p + 1 \<le> 5 \<longrightarrow>
        scheduled (snd (enter_state cs (reg, p))) = [2000 * (retryCountRef p + 1)]
        \<and> retryTimeoutRef (snd (fst (enter_state cs (reg, p))))
             = Some (2000 * (retryCountRef p + 1))
        \<and> fst (fst (enter_state cs (reg, p))))
   \<and> retryCountRef (fst (handleReconnect isJoining_seen hasJoinedRoom_seen p)) = 0
   \<and> retryCountRef (joinRoom_callback Success p) = 0
   \<and> retryCountRef (fst (retry_timer_fired False False hasJoinedRoom_seen p)) = 0
   \<and> scheduled (snd (enter_states css (reg, p)))
       = map (\<lambda>n. 2000 * n)
           [Suc (retryCountRef p) ..< Suc (min 5 (retryCountRef p + length (filter shouldRetry css)))]"
proof -
  have count: "shouldRetry cs \<longrightarrow>
      retryCountRef (snd (fst (enter_state cs (reg, p)))) = retryCountRef p + 1"
    by (simp add: enter_state_count)
  have stop: "shouldRetry cs \<and> 5 < retryCountRef p + 1 \<longrightarrow>
        scheduled (snd (enter_state cs (reg, p))) = []
        \<and> set (snd (enter_state cs (reg, p))) \<subseteq> {ClearTimeout}
        \<and> snd (enter_state cs (False, p)) = []
        \<and> \<not> fst (fst (enter_state cs (reg, p)))
        \<and> vp_status (snd (fst (enter_state cs (reg, p))))
             = Status ''WebRTC failed after multiple retries''"
    using enter_state_exhausted[of cs p reg] enter_state_exhausted_no_step[of cs p]
    by (simp add: enter_state_scheduled)
  have go: "shouldRetry cs \<and> retryCountRef p + 1 \<le> 5 \<longrightarrow>
        scheduled (snd (enter_state cs (reg, p))) = [2000 * (retryCountRef p + 1)]
        \<and> retryTimeoutRef (snd (fst (enter_state cs (reg, p))))
             = Some (2000 * (retryCountRef p + 1))
        \<and> fst (fst (enter_state cs (reg, p)))"
    using enter_state_registers[of cs p reg] by (simp add: enter_state_scheduled)
  from count stop go show ?thesis
    by (simp only: handleReconnect_resets joinRoom_callback_resets retry_timer_fired_resets
        enter_states_scheduled simp_thms)
qed

lemma five_attempts_reached:
  "fst (enter_states [Failed, Disconnected, Failed, Disconnected, Failed]
          (False, initial_viewer_page))
     = (True, five_attempts)"
  by (simp add: enter_state_def autoRetry_def autoRetry_cleanup_def shouldRetry_def
      initial_viewer_page_def five_attempts_def initial_hook_def Let_def)

theorem auto_retry_backoff_witness:
  "shouldRetry Failed
   \<and> retryCountRef (snd (fst (enter_state Failed (False, initial_viewer_page)))) = 1
   \<and> scheduled (snd (enter_state Failed (False, initial_viewer_page))) = [2000]
   \<and> fst (enter_states [Failed, Disconnected, Failed, Disconnected, Failed]
             (False, initial_viewer_page)) = (True, five_attempts)
   \<and> 5 < retryCountRef five_attempts + 1
   \<and> scheduled (snd (enter_state Failed (True, five_attempts))) = []
   \<and> \<not> fst (fst (enter_state Failed (True, five_attempts)))
   \<and> vp_status (snd (fst (enter_state Failed (True, five_attempts))))
        = Status ''WebRTC failed after multiple retries''
   \<and> retryCountRef (snd (fst (enter_state Failed (True, five_attempts)))) = 6
   \<and> scheduled (snd (enter_states [Disconnected, Connecting, Failed] (False, initial_viewer_page)))
        = [2000, 4000]"
proof -
  have a: "shouldRetry Failed" and a': "shouldRetry Disconnected" and a'': "\<not> shouldRetry Connecting"
    by (simp_all add: shouldRetry_def)
  have b: "retryCountRef initial_viewer_page = 0"
    by (simp add: initial_viewer_page_def)
  have c: "5 < retryCountRef five_attempts + 1" and c': "retryCountRef five_attempts = 5"
    by (simp_all add: five_attempts_def)
  have upt: "[Suc 0 ..< 3] = [1, 2]"
    by (simp add: upt_rec)
  from auto_retry_backoff[where cs = Failed and reg = False and p = initial_viewer_page
      and css = "[Disconnected, Connecting, Failed]"] a a' a'' b upt
  have 1: "retryCountRef (snd (fst (enter_state Failed (False, initial_viewer_page)))) = 1
    \<and> scheduled (snd (enter_state Failed (False, initial_viewer_page))) = [2000]
    \<and> scheduled (snd (enter_states [Disconnected, Connecting, Failed] (False, initial_viewer_page)))
        = [2000, 4000]"
    by simp
  from auto_retry_backoff[where cs = Failed and reg = True and p = five_attempts] a c
  have 2: "scheduled (snd (enter_state Failed (True, five_attempts))) = []
   \<and> \<not> fst (fst (enter_state Failed (True, five_attempts)))
   \<and> vp_status (snd (fst (enter_state Failed (True, five_attempts))))
        = Status ''WebRTC failed after multiple retries''
   \<and> retryCountRef (snd (fst (enter_state Failed (True, five_attempts)))) = retryCountRef five_attempts + 1"
    by blast
  with c' have 3: "retryCountRef (snd (fst (enter_state Failed (True, five_attempts)))) = 6"
    by simp
  from a c 1 2 3 five_attempts_reached show ?thesis by blast
qed

section \<open>Properties of the streamer page\<close>

subsection \<open>Pause\<close>

lemma stopLocalStream_sessions [simp]:
  "peerConnections (stopLocalStream h) = peerConnections h"
  "heap (stopLocalStream h) = heap h"
  "localStream (stopLocalStream h) = None"
  by (simp_all add: stopLocalStream_def split: option.splits)

lemma stopLocalStream_stops:
  "localStream h = Some stream \<Longrightarrow> fst ` set stream \<subseteq> stopped (stopLocalStream h)"
  by (simp add: stopLocalStream_def)

lemma stopStream_hook: "sp_hook (fst (stopStream p)) = stopLocalStream (sp_hook p)"
  by (simp add: stopStream_def Let_def)

lemma stopStream_page [simp]:
  "viewersRef (fst (stopStream p)) = viewersRef p"
  "sp_roomId (fst (stopStream p)) = sp_roomId p"
  by (simp_all add: stopStream_def Let_def)

lemma stopStream_actions:
  "sp_roomId p = Some r \<Longrightarrow> r \<noteq> [] \<Longrightarrow> snd (stopStream p) = [SocketEmit (EmitStreamPaused r)]"
  by (simp add: stopStream_def Let_def truthy_def)

subsection \<open>One offer started\<close>

lemma createOffer_start_keeps [simp]:
  "socket (fst (createOffer_start v h)) = socket h"
  "isStreamer (fst (createOffer_start v h)) = isStreamer h"
  "localStream (fst (createOffer_start v h)) = localStream h"
  by (simp_all add: createOffer_start_def createPeerConnectionForViewer_def Let_def
      split: option.splits)

lemma can_offer_createOffer_start [simp]:
  "can_offer (fst (createOffer_start v h)) = can_offer h"
  by (simp add: can_offer_def)

lemma createOffer_start_waits:
  "can_offer h \<Longrightarrow> snd (createOffer_start v h) = ([CreateOffer (nextPc h)], Some (nextPc h))"
  by (auto simp: can_offer_def createOffer_start_def createPeerConnectionForViewer_def Let_def
      split: option.splits)

lemma createOffer_start_nextPc:
  "can_offer h \<Longrightarrow> nextPc (fst (createOffer_start v h)) = Suc (nextPc h)"
  by (auto simp: can_offer_def createOffer_start_def createPeerConnectionForViewer_def Let_def
      split: option.splits)

lemma createOffer_start_table:
  "can_offer h \<Longrightarrow>
     map_get (peerConnections (fst (createOffer_start v h))) w
       = (if w = v then Some (nextPc h) else map_get (peerConnections h) w)"
  by (auto simp: can_offer_def createOffer_start_def createPeerConnectionForViewer_def Let_def
      map_get_map_set map_get_map_set_other map_get_map_delete_other split: option.splits)

lemma createOffer_start_heap:
  "can_offer h \<Longrightarrow> x \<noteq> nextPc h \<Longrightarrow>
     heap (fst (createOffer_start v h)) x
       = (if map_get (peerConnections h) v = Some x then pc_close (heap h x) else heap h x)"
  by (auto simp: can_offer_def createOffer_start_def createPeerConnectionForViewer_def Let_def
      split: option.splits)

lemma createOffer_start_fresh:
  "can_offer h \<Longrightarrow>
     pc_connectionState (heap (fst (createOffer_start v h)) (nextPc h)) = New
     \<and> pc_signalingState (heap (fst (createOffer_start v h)) (nextPc h)) = Stable"
  by (auto simp: can_offer_def createOffer_start_def createPeerConnectionForViewer_def Let_def
      new_pc_def split: option.splits)


lemma list_all_map_delete: "list_all P m \<Longrightarrow> list_all P (map_delete m k)"
  by (simp add: map_delete_def list_all_iff)

lemma list_all_weaken: "list_all P m \<Longrightarrow> (\<And>q. P q \<Longrightarrow> Q q) \<Longrightarrow> list_all Q m"
  by (simp add: list_all_iff)

lemma refs_allocated_initial: "refs_allocated (initial_hook sock role)"
  by (simp add: refs_allocated_def initial_hook_def)

lemma refs_allocated_createPeerConnectionForViewer:
  assumes "refs_allocated h"
  shows "refs_allocated (snd (createPeerConnectionForViewer v h))"
proof -
  from assms have t: "list_all (\<lambda>q. snd q < Suc (nextPc h)) (peerConnections h)"
    and c: "case peerConnection h of Some pc \<Rightarrow> pc < Suc (nextPc h) | None \<Rightarrow> True"
    by (auto simp: refs_allocated_def list_all_iff split: option.splits)
  from t have "list_all (\<lambda>q. snd q < Suc (nextPc h))
                 (map_set (map_delete (peerConnections h) v) v (nextPc h))"
    and "list_all (\<lambda>q. snd q < Suc (nextPc h)) (map_set (peerConnections h) v (nextPc h))"
    by (simp_all add: list_all_map_set list_all_map_delete)
  with c show ?thesis
    by (simp add: refs_allocated_def createPeerConnectionForViewer_def Let_def
        split: option.splits)
qed

lemma refs_allocated_createOffer_start:
  "refs_allocated h \<Longrightarrow> refs_allocated (fst (createOffer_start v h))"
  using refs_allocated_createPeerConnectionForViewer[of h v]
  by (auto simp: createOffer_start_def refs_allocated_def Let_def case_prod_beta
      split: option.splits)

lemma refs_allocated_cleanupViewerConnection:
  "refs_allocated h \<Longrightarrow> refs_allocated (cleanupViewerConnection v h)"
  by (auto simp: cleanupViewerConnection_def refs_allocated_def Let_def list_all_map_delete
      split: option.splits)

lemma refs_allocated_cleanup: "refs_allocated (cleanup h)"
  by (simp add: refs_allocated_def)

lemma refs_allocated_createAnswer_prepare:
  "refs_allocated h \<Longrightarrow> refs_allocated (createAnswer_prepare s h)"
  by (auto simp: createAnswer_prepare_def refs_allocated_def Let_def list_all_iff
      split: option.splits)

lemma refs_allocated_lookup:
  "refs_allocated h \<Longrightarrow> map_get (peerConnections h) v = Some pc \<Longrightarrow> pc < nextPc h"
  by (auto simp: refs_allocated_def list_all_iff dest!: map_get_in_set)

subsection \<open>All offers started\<close>

lemma createOffers_start_step:
  "createOffers_start (v # vs) h =
     (fst (createOffers_start vs (fst (createOffer_start v h))),
      fst (snd (createOffer_start v h))
        @ fst (snd (createOffers_start vs (fst (createOffer_start v h)))),
      (case snd (snd (createOffer_start v h)) of None \<Rightarrow> [] | Some pc \<Rightarrow> [(v, pc)])
        @ snd (snd (createOffers_start vs (fst (createOffer_start v h)))))"
  by (simp add: case_prod_beta)

lemma createOffers_start_can_offer [simp]:
  "can_offer (fst (createOffers_start vs h)) = can_offer h"
  by (induction vs arbitrary: h) (simp_all add: createOffers_start_step del: createOffers_start.simps(2))

lemma createOffers_start_nextPc:
  "can_offer h \<Longrightarrow> nextPc h \<le> nextPc (fst (createOffers_start vs h))"
proof (induction vs arbitrary: h)
  case Nil
  then show ?case by simp
next
  case (Cons v vs)
  from Cons.prems have "can_offer (fst (createOffer_start v h))" by simp
  from Cons.IH[OF this] Cons.prems show ?case
    by (simp add: createOffers_start_step createOffer_start_nextPc del: createOffers_start.simps(2))
qed

lemma createOffers_start_pending:
  "can_offer h \<Longrightarrow> map fst (snd (snd (createOffers_start vs h))) = vs"
proof (induction vs arbitrary: h)
  case Nil
  then show ?case by simp
next
  case (Cons v vs)
  from Cons.prems have "can_offer (fst (createOffer_start v h))" by simp
  from Cons.IH[OF this] Cons.prems show ?case
    by (simp add: createOffers_start_step createOffer_start_waits del: createOffers_start.simps(2))
qed

lemma offers_sent_append [simp]: "offers_sent (xs @ ys) = offers_sent xs @ offers_sent ys"
  by (induction xs rule: offers_sent.induct) auto

lemma createOffer_start_sends_nothing: "offers_sent (fst (snd (createOffer_start v h))) = []"
  by (simp add: createOffer_start_def createPeerConnectionForViewer_def Let_def
      split: option.splits)

lemma createOffers_start_sends_nothing:
  "offers_sent (fst (snd (createOffers_start vs h))) = []"
  by (induction vs arbitrary: h)
     (simp_all add: createOffers_start_step createOffer_start_sends_nothing
        del: createOffers_start.simps(2))

lemma createOffers_start_untouched:
  "can_offer h \<Longrightarrow> w \<notin> set vs \<Longrightarrow>
     map_get (peerConnections (fst (createOffers_start vs h))) w = map_get (peerConnections h) w"
proof (induction vs arbitrary: h)
  case Nil
  then show ?case by simp
next
  case (Cons v vs)
  from Cons.prems have ok: "can_offer (fst (createOffer_start v h))" and "w \<notin> set vs" and "w \<noteq> v"
    by simp_all
  from Cons.IH[OF ok \<open>w \<notin> set vs\<close>] Cons.prems(1) \<open>w \<noteq> v\<close> show ?case
    by (simp add: createOffers_start_step createOffer_start_table del: createOffers_start.simps(2))
qed

lemma createOffers_start_replaced:
  "can_offer h \<Longrightarrow> v \<in> set vs \<Longrightarrow>
     \<exists>new. map_get (peerConnections (fst (createOffers_start vs h))) v = Some new
           \<and> nextPc h \<le> new"
proof (induction vs arbitrary: h)
  case Nil
  then show ?case by simp
next
  case (Cons w vs)
  let ?h1 = "fst (createOffer_start w h)"
  from Cons.prems have ok: "can_offer ?h1" by simp
  show ?case
  proof (cases "v \<in> set vs")
    case True
    from Cons.IH[OF ok True] obtain new
      where "map_get (peerConnections (fst (createOffers_start vs ?h1))) v = Some new"
        and "nextPc ?h1 \<le> new" by blast
    with Cons.prems(1) show ?thesis
      by (simp add: createOffers_start_step createOffer_start_nextPc
          del: createOffers_start.simps(2))
  next
    case False
    with Cons.prems(2) have "w = v" by simp
    with Cons.prems(1) createOffers_start_untouched[OF ok False] show ?thesis
      by (simp add: createOffers_start_step createOffer_start_table
          del: createOffers_start.simps(2))
  qed
qed

lemma createOffer_start_stays_closed:
  "can_offer h \<Longrightarrow> x < nextPc h \<Longrightarrow> pc_connectionState (heap h x) = Closed \<Longrightarrow>
     pc_connectionState (heap (fst (createOffer_start v h)) x) = Closed"
  by (simp add: createOffer_start_heap pc_close_def)

lemma createOffers_start_stays_closed:
  "can_offer h \<Longrightarrow> x < nextPc h \<Longrightarrow> pc_connectionState (heap h x) = Closed \<Longrightarrow>
     pc_connectionState (heap (fst (createOffers_start vs h)) x) = Closed"
proof (induction vs arbitrary: h)
  case Nil
  then show ?case by simp
next
  case (Cons v vs)
  let ?h1 = "fst (createOffer_start v h)"
  from Cons.prems have "can_offer ?h1" and "x < nextPc ?h1"
    and "pc_connectionState (heap ?h1 x) = Closed"
    by (simp_all add: createOffer_start_nextPc createOffer_start_stays_closed)
  from Cons.IH[OF this] show ?case
    by (simp add: createOffers_start_step del: createOffers_start.simps(2))
qed

lemma createOffers_start_closes:
  "can_offer h \<Longrightarrow> v \<in> set vs \<Longrightarrow> map_get (peerConnections h) v = Some old \<Longrightarrow>
   old < nextPc h \<Longrightarrow>
     pc_connectionState (heap (fst (createOffers_start vs h)) old) = Closed"
proof (induction vs arbitrary: h)
  case Nil
  then show ?case by simp
next
  case (Cons w vs)
  let ?h1 = "fst (createOffer_start w h)"
  from Cons.prems have ok: "can_offer ?h1" and lt: "old < nextPc ?h1"
    by (simp_all add: createOffer_start_nextPc)
  show ?case
  proof (cases "w = v")
    case True
    with Cons.prems have "pc_connectionState (heap ?h1 old) = Closed"
      by (simp add: createOffer_start_heap pc_close_def)
    from createOffers_start_stays_closed[OF ok lt this] show ?thesis
      by (simp add: createOffers_start_step del: createOffers_start.simps(2))
  next
    case False
    with Cons.prems have "v \<in> set vs" and "map_get (peerConnections ?h1) v = Some old"
      by (simp_all add: createOffer_start_table)
    from Cons.IH[OF ok this lt] show ?thesis
      by (simp add: createOffers_start_step del: createOffers_start.simps(2))
  qed
qed

subsection \<open>All offers completed\<close>

lemma all_resolve_parts [simp]:
  "fst (all_resolve sdp_of v) = Resolved (sdp_of v)"
  "snd (all_resolve sdp_of v) = Resolved ()"
  by (simp_all add: all_resolve_def)

lemma createOffers_finish_offers:
  "offers_sent (snd (createOffers_finish (all_resolve sdp_of) pending h))
     = map (\<lambda>q. (sdp_of (fst q), fst q)) pending"
proof (induction pending arbitrary: h)
  case Nil
  then show ?case by simp
next
  case (Cons q pending)
  obtain v pc where q: "q = (v, pc)" by (cases q)
  show ?case
    by (simp add: q createOffer_created_def createOffer_described_def
        case_prod_beta Cons.IH)
qed


subsection \<open>Resume\<close>

lemma startStreamCore_granted:
  assumes "isStreamer (sp_hook p)" and "filter (\<lambda>t. snd t = Video) tracks \<noteq> []"
  shows "startStreamCore (Stream tracks) Attached p
           = (p\<lparr>sp_hook := (sp_hook p)\<lparr>localStream := Some tracks\<rparr>,
                videoSrc := Some tracks, isStreaming := True\<rparr>, Inr ())"
  using assms by (simp add: startStreamCore_def startLocalStream_def Let_def)

lemma restartStream_start_granted:
  assumes "sp_roomId p = Some r" and "r \<noteq> []"
    and "isStreamer (sp_hook p)" and "filter (\<lambda>t. snd t = Video) tracks \<noteq> []"
  shows "restartStream_start (Stream tracks) Attached p =
     (let h = (sp_hook p)\<lparr>error := None, localStream := Some tracks\<rparr>;
          started = createOffers_start (viewersRef p) h
      in (p\<lparr>isInitializing := False, sp_status := Status ''Streaming live'',
            videoSrc := Some tracks, isStreaming := True, sp_hook := fst started\<rparr>,
          SocketEmit (EmitStreamResumed r) # fst (snd started), snd (snd started)))"
  using assms
  by (simp add: restartStream_start_def truthy_def sp_setError_def startStreamCore_granted
      Let_def case_prod_beta)

lemma restartStream_offers:
  assumes "sp_roomId p = Some r" and "r \<noteq> []"
    and "isStreamer (sp_hook p)" and "socket (sp_hook p)"
    and "filter (\<lambda>t. snd t = Video) tracks \<noteq> []"
  shows "offers_sent (snd (restartStream (Stream tracks) Attached (all_resolve sdp_of) p))
           = map (\<lambda>v. (sdp_of v, v)) (viewersRef p)"
proof -
  let ?h = "(sp_hook p)\<lparr>error := None, localStream := Some tracks\<rparr>"
  have ok: "can_offer ?h"
    using assms(3,4) by (simp add: can_offer_def)
  have "offers_sent (snd (restartStream (Stream tracks) Attached (all_resolve sdp_of) p))
          = map (\<lambda>q. (sdp_of (fst q), fst q)) (snd (snd (createOffers_start (viewersRef p) ?h)))"
    using assms
    by (simp add: restartStream_def restartStream_start_granted Let_def case_prod_beta
        createOffers_start_sends_nothing createOffers_finish_offers)
  also have "\<dots> = map (\<lambda>v. (sdp_of v, v)) (map fst (snd (snd (createOffers_start (viewersRef p) ?h))))"
    by (simp add: comp_def)
  also have "\<dots> = map (\<lambda>v. (sdp_of v, v)) (viewersRef p)"
    by (simp only: createOffers_start_pending[OF ok])
  finally show ?thesis .
qed

lemma restartStream_start_replaces:
  assumes "sp_roomId p = Some r" and "r \<noteq> []"
    and "isStreamer (sp_hook p)" and "socket (sp_hook p)"
    and "filter (\<lambda>t. snd t = Video) tracks \<noteq> []"
    and "v \<in> set (viewersRef p)"
    and "map_get (peerConnections (sp_hook p)) v = Some old" and "old < nextPc (sp_hook p)"
  shows "pc_connectionState (heap (sp_hook (fst (restartStream_start (Stream tracks) Attached p))) old)
           = Closed"
    and "map_get (peerConnections (sp_hook (fst (restartStream_start (Stream tracks) Attached p)))) v
           \<noteq> Some old"
    and "map_get (peerConnections (sp_hook (fst (restartStream_start (Stream tracks) Attached p)))) v
           \<noteq> None"
    and "offers_sent (fst (snd (restartStream_start (Stream tracks) Attached p))) = []"
proof -
  let ?h = "(sp_hook p)\<lparr>error := None, localStream := Some tracks\<rparr>"
  have ok: "can_offer ?h"
    using assms(3,4) by (simp add: can_offer_def)
  have hook: "sp_hook (fst (restartStream_start (Stream tracks) Attached p))
                = fst (createOffers_start (viewersRef p) ?h)"
    using assms(1-5) by (simp add: restartStream_start_granted Let_def)
  have old: "map_get (peerConnections ?h) v = Some old" "old < nextPc ?h"
    using assms(7,8) by simp_all
  show "pc_connectionState (heap (sp_hook (fst (restartStream_start (Stream tracks) Attached p))) old)
           = Closed"
    using createOffers_start_closes[OF ok assms(6) old] by (simp add: hook)
  from createOffers_start_replaced[OF ok assms(6)] obtain new
    where new: "map_get (peerConnections (fst (createOffers_start (viewersRef p) ?h))) v = Some new"
      and "nextPc ?h \<le> new" by blast
  with old(2) have "new \<noteq> old" by simp
  with new show "map_get (peerConnections (sp_hook (fst (restartStream_start (Stream tracks) Attached p)))) v
           \<noteq> Some old"
    by (simp add: hook)
  from new show "map_get (peerConnections (sp_hook (fst (restartStream_start (Stream tracks) Attached p)))) v
           \<noteq> None"
    by (simp add: hook)
  show "offers_sent (fst (snd (restartStream_start (Stream tracks) Attached p))) = []"
    using assms(1-5)
    by (simp add: restartStream_start_granted Let_def createOffers_start_sends_nothing)
qed


lemma paused_page_fields:
  "sp_roomId paused_page = Some ''dev-room-001''"
  "viewersRef paused_page = [''v1'', ''v2'']"
  "isStreamer (sp_hook paused_page)"
  "socket (sp_hook paused_page)"
  "nextPc (sp_hook paused_page) = 2"
  "map_get (peerConnections (sp_hook paused_page)) ''v2'' = Some 1"
  "pc_connectionState (heap (sp_hook paused_page) 1) = Connected"
  by (simp_all add: paused_page_def two_viewers_fields map_get_def del: One_nat_def)

lemma two_viewers_allocated: "refs_allocated two_viewers"
  by (simp add: refs_allocated_def two_viewers_fields)

lemma paused_page_allocated [simp]: "refs_allocated (sp_hook paused_page)"
  by (simp add: refs_allocated_def paused_page_def two_viewers_fields)

lemma paused_page_set: "distinct (viewersRef paused_page)" "''v2'' \<in> set (viewersRef paused_page)"
  by (simp_all add: paused_page_def)

lemma live_page_fields:
  "sp_roomId live_page = Some ''dev-room-001''"
  "isStreamer (sp_hook live_page)"
  "socket (sp_hook live_page)"
  "distinct (viewersRef live_page)"
  "refs_allocated (sp_hook live_page)"
  by (simp_all add: live_page_def paused_page_def two_viewers_fields two_viewers_allocated)

lemma camera_has_video: "filter (\<lambda>t. snd t = Video) camera \<noteq> []"
  by (simp add: camera_def)

text \<open>
  Claim C6, as the code has it. For a streamer page with a room: \<open>stopStream\<close> leaves
  the connection table and every connection in it unchanged, its only effect on the hook
  is \<open>stopLocalStream\<close>, and its only step is the \<open>stream-paused\<close> broadcast.
  \<open>restartStream\<close>, when the camera is granted, the video element takes the stream
  and every offer's promises resolve, sends exactly one offer per known viewer, addressed
  at that viewer, in the order of the viewer set. Before any offer is sent, the existing
  connection of each known viewer has been closed and replaced in the table by a new one.
\<close>

theorem pause_keeps_resume_replaces:
  assumes "sp_roomId p = Some r" and "r \<noteq> []"
    and "isStreamer (sp_hook p)" and "socket (sp_hook p)"
    and "distinct (viewersRef p)" and "refs_allocated (sp_hook p)"
    and "filter (\<lambda>t. snd t = Video) tracks \<noteq> []"
  shows "sp_hook (fst (stopStream p)) = stopLocalStream (sp_hook p)
       \<and> peerConnections (sp_hook (fst (stopStream p))) = peerConnections (sp_hook p)
       \<and> heap (sp_hook (fst (stopStream p))) = heap (sp_hook p)
       \<and> snd (stopStream p) = [SocketEmit (EmitStreamPaused r)]
       \<and> offers_sent (snd (restartStream (Stream tracks) Attached (all_resolve sdp_of) p))
           = map (\<lambda>v. (sdp_of v, v)) (viewersRef p)
       \<and> (\<forall>v \<in> set (viewersRef p).
             count_list (map snd (offers_sent
               (snd (restartStream (Stream tracks) Attached (all_resolve sdp_of) p)))) v = 1)
       \<and> (\<forall>v \<in> set (viewersRef p). \<forall>old.
             map_get (peerConnections (sp_hook p)) v = Some old \<longrightarrow>
               pc_connectionState
                 (heap (sp_hook (fst (restartStream_start (Stream tracks) Attached p))) old) = Closed
               \<and> map_get (peerConnections
                     (sp_hook (fst (restartStream_start (Stream tracks) Attached p)))) v \<noteq> Some old
               \<and> map_get (peerConnections
                     (sp_hook (fst (restartStream_start (Stream tracks) Attached p)))) v \<noteq> None
               \<and> offers_sent (fst (snd (restartStream_start (Stream tracks) Attached p))) = [])"
proof -
  note offers = restartStream_offers[OF assms(1-4,7), of sdp_of]
  have targets: "map snd (offers_sent
      (snd (restartStream (Stream tracks) Attached (all_resolve sdp_of) p))) = viewersRef p"
    by (simp add: offers comp_def)
  have once: "\<forall>v \<in> set (viewersRef p).
      count_list (map snd (offers_sent
        (snd (restartStream (Stream tracks) Attached (all_resolve sdp_of) p)))) v = 1"
    using assms(5) by (simp add: targets distinct_count_one)
  have replaced: "\<forall>v \<in> set (viewersRef p). \<forall>old.
      map_get (peerConnections (sp_hook p)) v = Some old \<longrightarrow>
        pc_connectionState
          (heap (sp_hook (fst (restartStream_start (Stream tracks) Attached p))) old) = Closed
        \<and> map_get (peerConnections
              (sp_hook (fst (restartStream_start (Stream tracks) Attached p)))) v \<noteq> Some old
        \<and> map_get (peerConnections
              (sp_hook (fst (restartStream_start (Stream tracks) Attached p)))) v \<noteq> None
        \<and> offers_sent (fst (snd (restartStream_start (Stream tracks) Attached p))) = []"
    using restartStream_start_replaces[OF assms(1-4,7)] refs_allocated_lookup[OF assms(6)]
    by blast
  have pause: "sp_hook (fst (stopStream p)) = stopLocalStream (sp_hook p)
       \<and> peerConnections (sp_hook (fst (stopStream p))) = peerConnections (sp_hook p)
       \<and> heap (sp_hook (fst (stopStream p))) = heap (sp_hook p)
       \<and> snd (stopStream p) = [SocketEmit (EmitStreamPaused r)]"
    using assms(1,2) by (simp add: stopStream_hook stopStream_actions)
  from pause offers once replaced show ?thesis
    by blast
qed

theorem pause_keeps_resume_replaces_witness:
  "sp_roomId live_page = Some ''dev-room-001''
   \<and> isStreamer (sp_hook live_page) \<and> socket (sp_hook live_page)
   \<and> distinct (viewersRef live_page) \<and> refs_allocated (sp_hook live_page)
   \<and> snd (stopStream live_page) = [SocketEmit (EmitStreamPaused ''dev-room-001'')]
   \<and> peerConnections (sp_hook (fst (stopStream live_page))) = peerConnections (sp_hook live_page)
   \<and> heap (sp_hook (fst (stopStream live_page))) = heap (sp_hook live_page)
   \<and> sp_roomId paused_page = Some ''dev-room-001''
   \<and> isStreamer (sp_hook paused_page) \<and> socket (sp_hook paused_page)
   \<and> distinct (viewersRef paused_page) \<and> refs_allocated (sp_hook paused_page)
   \<and> ''v2'' \<in> set (viewersRef paused_page)
   \<and> map_get (peerConnections (sp_hook paused_page)) ''v2'' = Some 1
   \<and> offers_sent (snd (restartStream (Stream camera) Attached (all_resolve (\<lambda>v. ''offer-'' @ v))
                         paused_page))
       = [(''offer-v1'', ''v1''), (''offer-v2'', ''v2'')]
   \<and> pc_connectionState
        (heap (sp_hook (fst (restartStream_start (Stream camera) Attached paused_page))) 1) = Closed"
proof -
  have ne: "''dev-room-001'' \<noteq> []"
    by simp
  have r': "sp_roomId live_page = Some ''dev-room-001''"
    and s': "isStreamer (sp_hook live_page)" and k': "socket (sp_hook live_page)"
    and d': "distinct (viewersRef live_page)" and a': "refs_allocated (sp_hook live_page)"
    by (simp_all add: live_page_fields)
  have r: "sp_roomId paused_page = Some ''dev-room-001''"
    and s: "isStreamer (sp_hook paused_page)" and k: "socket (sp_hook paused_page)"
    and d: "distinct (viewersRef paused_page)" and a: "refs_allocated (sp_hook paused_page)"
    and m: "''v2'' \<in> set (viewersRef paused_page)"
    and o: "map_get (peerConnections (sp_hook paused_page)) ''v2'' = Some 1"
    by (simp_all add: paused_page_fields paused_page_set del: One_nat_def)
  from pause_keeps_resume_replaces[OF r' ne s' k' d' a' camera_has_video]
  have 1: "snd (stopStream live_page) = [SocketEmit (EmitStreamPaused ''dev-room-001'')]
     \<and> peerConnections (sp_hook (fst (stopStream live_page))) = peerConnections (sp_hook live_page)
     \<and> heap (sp_hook (fst (stopStream live_page))) = heap (sp_hook live_page)"
    by blast
  note inst = pause_keeps_resume_replaces[OF r ne s k d a camera_has_video,
      of "\<lambda>v. ''offer-'' @ v"]
  from inst have "offers_sent (snd (restartStream (Stream camera) Attached
        (all_resolve (\<lambda>v. ''offer-'' @ v)) paused_page))
      = map (\<lambda>v. (''offer-'' @ v, v)) (viewersRef paused_page)"
    by blast
  then have 2: "offers_sent (snd (restartStream (Stream camera) Attached
        (all_resolve (\<lambda>v. ''offer-'' @ v)) paused_page))
      = [(''offer-v1'', ''v1''), (''offer-v2'', ''v2'')]"
    by (simp add: paused_page_fields)
  from inst m o have 3: "pc_connectionState
        (heap (sp_hook (fst (restartStream_start (Stream camera) Attached paused_page))) 1) = Closed"
    by blast
  from r' s' k' d' a' r s k d a m o 1 2 3 show ?thesis
    by blast
qed

text \<open>
  Claim C6 as stated fails at the paused page: viewer \<open>v2\<close> has a connected session,
  and when \<open>restartStream\<close> has started its offers, none of them sent yet, that
  session is closed and the table holds another connection for \<open>v2\<close>.
\<close>

theorem resume_discards_sessions_counterexample:
  "map_get (peerConnections (sp_hook paused_page)) ''v2'' = Some 1
   \<and> pc_connectionState (heap (sp_hook paused_page) 1) = Connected
   \<and> offers_sent (fst (snd (restartStream_start (Stream camera) Attached paused_page))) = []
   \<and> pc_connectionState
        (heap (sp_hook (fst (restartStream_start (Stream camera) Attached paused_page))) 1) = Closed
   \<and> map_get (peerConnections
         (sp_hook (fst (restartStream_start (Stream camera) Attached paused_page)))) ''v2'' \<noteq> Some 1"
proof -
  have r: "sp_roomId paused_page = Some ''dev-room-001''" and ne: "''dev-room-001'' \<noteq> []"
    and s: "isStreamer (sp_hook paused_page)" and k: "socket (sp_hook paused_page)"
    and m: "''v2'' \<in> set (viewersRef paused_page)"
    and o: "map_get (peerConnections (sp_hook paused_page)) ''v2'' = Some 1"
    and l: "1 < nextPc (sp_hook paused_page)"
    and c: "pc_connectionState (heap (sp_hook paused_page) 1) = Connected"
    by (simp_all add: paused_page_fields del: One_nat_def)
  from restartStream_start_replaces[OF r ne s k camera_has_video m o l] o c show ?thesis
    by blast
qed


subsection \<open>One offer, two listeners\<close>

lemma onOffer_guarded:
  "set_has (processingOffers (vp_hook p)) sender \<Longrightarrow>
     fst (snd (onOffer w c i offer sender p)) = []
     \<and> vp_hook (fst (onOffer w c i offer sender p)) = vp_hook p"
  by (simp add: onOffer_def Let_def createAnswer_start_guarded)

lemma offer_received_once:
  assumes "createAnswer_start offer sender (vp_hook p) = (h, acts, Some pc)"
  shows "fst (snd (offer_received w c i offer sender p)) = [SetRemoteDescription pc offer]"
    and "vp_hook (fst (offer_received w c i offer sender p)) = h"
proof -
  from assms have g: "set_has (processingOffers (vp_hook (p\<lparr>vp_hook := h\<rparr>))) sender"
    by (simp add: createAnswer_start_waiting)
  from assms have a: "acts = [SetRemoteDescription pc offer]"
    by (auto simp: createAnswer_start_def Let_def split: if_splits option.splits)
  from onOffer_guarded[OF g, of w c i offer] assms a
  show "fst (snd (offer_received w c i offer sender p)) = [SetRemoteDescription pc offer]"
    and "vp_hook (fst (offer_received w c i offer sender p)) = h"
    by (simp_all add: offer_received_def case_prod_beta)
qed

end
